theory Spec2Isabelle
  imports Complex_Main "HOL-Library.AList"
begin

section \<open>JavaScript values\<close>

text \<open>
  The front end is TypeScript; at run time its data are JavaScript values. A number is
  \<open>NaN\<close>, an infinity or a finite value; the finite values are kept as exact rationals
  (every double is one), so a statement proved for all of them holds for every double.
\<close>

datatype jsnum = NaN | PosInfinity | NegInfinity | Fin rat

section \<open>The client store (\<open>frontend/src/lib/store.ts\<close>)\<close>

datatype WalletMode = Demo | Wallet

datatype RiskPreference = Low | Medium | High

record NetworkInfo =
  chainId :: int
  name :: string

type_synonym TokenBalances = "(string \<times> jsnum) list"

record AppState =
  mode :: WalletMode
  walletAddress :: "string option"
  demoWallet :: string
  riskPreference :: RiskPreference
  tokenBalances :: TokenBalances
  network :: "NetworkInfo option"
  isLoadingBalances :: bool
  hasHydrated :: bool

definition DEMO_WALLET :: string where
  "DEMO_WALLET = ''0x742d35Cc6634C0532925a3b844Bc9e7595f0bEb''"

definition initial_state :: AppState where
  "initial_state =
     \<lparr> mode = Demo, walletAddress = None, demoWallet = DEMO_WALLET,
       riskPreference = Medium, tokenBalances = [], network = None,
       isLoadingBalances = False, hasHydrated = False \<rparr>"

text \<open>
  JavaScript truthiness of a \<open>string | null\<close>: \<open>null\<close> and the empty string are falsy,
  every other string is truthy. \<open>a || d\<close> is \<open>a\<close> when \<open>a\<close> is truthy and \<open>d\<close> otherwise.
\<close>

fun truthy_address :: "string option \<Rightarrow> bool" where
  "truthy_address None = False"
| "truthy_address (Some a) = (a \<noteq> [])"

fun address_or :: "string option \<Rightarrow> string \<Rightarrow> string" where
  "address_or None d = d"
| "address_or (Some a) d = (if a \<noteq> [] then a else d)"

definition setHasHydrated :: "bool \<Rightarrow> AppState \<Rightarrow> AppState" where
  "setHasHydrated v s = s\<lparr>hasHydrated := v\<rparr>"

definition setMode :: "WalletMode \<Rightarrow> AppState \<Rightarrow> AppState" where
  "setMode m s =
     (let s1 = s\<lparr>mode := m\<rparr>
      in if m = Demo
         then s1\<lparr>tokenBalances := [],
                 network := Some \<lparr>chainId = 1, name = ''Ethereum Mainnet''\<rparr>\<rparr>
         else s1)"

definition setWalletAddress :: "string option \<Rightarrow> AppState \<Rightarrow> AppState" where
  "setWalletAddress address s =
     (let s1 = s\<lparr>walletAddress := address\<rparr>
      in if truthy_address address then s1\<lparr>mode := Wallet\<rparr> else s1)"

definition clearWallet :: "AppState \<Rightarrow> AppState" where
  "clearWallet s =
     s\<lparr>mode := Demo, walletAddress := None, tokenBalances := [], network := None,
       isLoadingBalances := False\<rparr>"

definition setRiskPreference :: "RiskPreference \<Rightarrow> AppState \<Rightarrow> AppState" where
  "setRiskPreference risk s = s\<lparr>riskPreference := risk\<rparr>"

definition setTokenBalances :: "TokenBalances \<Rightarrow> AppState \<Rightarrow> AppState" where
  "setTokenBalances balances s = s\<lparr>tokenBalances := balances\<rparr>"

definition setNetwork :: "NetworkInfo option \<Rightarrow> AppState \<Rightarrow> AppState" where
  "setNetwork n s = s\<lparr>network := n\<rparr>"

definition setLoadingBalances :: "bool \<Rightarrow> AppState \<Rightarrow> AppState" where
  "setLoadingBalances loading s = s\<lparr>isLoadingBalances := loading\<rparr>"

definition getActiveWallet :: "AppState \<Rightarrow> string" where
  "getActiveWallet state =
     (if mode state = Demo then demoWallet state
      else address_or (walletAddress state) (demoWallet state))"

definition isConnected :: "AppState \<Rightarrow> bool" where
  "isConnected state =
     (if mode state = Wallet then truthy_address (walletAddress state) else True)"

definition isDemoMode :: "AppState \<Rightarrow> bool" where
  "isDemoMode state = (mode state = Demo)"

text \<open>
  The states of the store: the initial state and whatever the store's actions make of it.
  (The \<open>persist\<close> middleware restores a state that the actions of an earlier session
  produced.)
\<close>

inductive reachable :: "AppState \<Rightarrow> bool" where
  r_init: "reachable initial_state"
| r_setHasHydrated: "reachable s \<Longrightarrow> reachable (setHasHydrated v s)"
| r_setMode: "reachable s \<Longrightarrow> reachable (setMode m s)"
| r_setWalletAddress: "reachable s \<Longrightarrow> reachable (setWalletAddress a s)"
| r_clearWallet: "reachable s \<Longrightarrow> reachable (clearWallet s)"
| r_setRiskPreference: "reachable s \<Longrightarrow> reachable (setRiskPreference r s)"
| r_setTokenBalances: "reachable s \<Longrightarrow> reachable (setTokenBalances b s)"
| r_setNetwork: "reachable s \<Longrightarrow> reachable (setNetwork n s)"
| r_setLoadingBalances: "reachable s \<Longrightarrow> reachable (setLoadingBalances l s)"

text \<open>
  A state the store's actions reach in which the wallet address is the empty string:
  \<open>setWalletAddress('')\<close> followed by \<open>setMode('wallet')\<close>.
\<close>

definition empty_address_state :: AppState where
  "empty_address_state = setMode Wallet (setWalletAddress (Some []) initial_state)"

definition connected_state :: AppState where
  "connected_state = setWalletAddress (Some ''0xAbC1'') initial_state"

section \<open>The API client (\<open>src/unnamed/part_004\<close>)\<close>

datatype js_error =
    TypeError | RangeError | ReferenceError | SyntaxError
  | Error string | Rejected string | QuotaExceededError

text \<open>
  \<open>getPortfolio\<close> sends one HTTP GET through the axios client. The server's answer is not
  this program's: \<open>client_get\<close> stands for it (a rejection or the response's data). The
  function returns the paths it requested, in order, and its outcome.
  \<open>window_defined\<close> is \<open>typeof window !== 'undefined'\<close>: true in the browser.
\<close>

definition getPortfolio ::
  "(string \<Rightarrow> js_error + 'a) \<Rightarrow> bool \<Rightarrow> AppState \<Rightarrow> string list \<times> (js_error + 'a)" where
  "getPortfolio client_get window_defined state =
     (if \<not> window_defined then ([], Inl (Error ''Cannot fetch portfolio on server side''))
      else if mode state = Demo
      then ([''/api/portfolio/demo''], client_get ''/api/portfolio/demo'')
      else (let wallet = address_or (walletAddress state) (demoWallet state);
                url = ''/api/portfolio?wallet='' @ wallet
            in ([url], client_get url)))"

section \<open>Untyped values and the built-in operations the front end calls\<close>

text \<open>
  What reaches \<open>normalizeHoldings\<close> and the formatters is typed \<open>any\<close>: data as JSON
  delivers them, \<open>undefined\<close> for what is missing, and symbols (with their description).
  An object is its list of own properties in enumeration order; as in parsed JSON, no
  property is a function and the prototype is \<open>Object.prototype\<close> or \<open>Array.prototype\<close>.
\<close>

datatype jsval =
    Undefined
  | Null
  | Bool bool
  | Num jsnum
  | Str string
  | Symbol string
  | Arr "jsval list"
  | Obj "(string \<times> jsval) list"

text \<open>Truthiness, \<open>a || b\<close> and \<open>a ?? b\<close>.\<close>

fun truthy :: "jsval \<Rightarrow> bool" where
  "truthy Undefined = False"
| "truthy Null = False"
| "truthy (Bool b) = b"
| "truthy (Num n) = (n \<noteq> NaN \<and> n \<noteq> Fin 0)"
| "truthy (Str s) = (s \<noteq> [])"
| "truthy (Symbol s) = True"
| "truthy (Arr xs) = True"
| "truthy (Obj ps) = True"

definition js_or :: "jsval \<Rightarrow> jsval \<Rightarrow> jsval" where
  "js_or a b = (if truthy a then a else b)"

definition nullish :: "jsval \<Rightarrow> bool" where
  "nullish v = (v = Undefined \<or> v = Null)"

definition nullish_or :: "jsval \<Rightarrow> jsval \<Rightarrow> jsval" where
  "nullish_or a b = (if nullish a then b else a)"

text \<open>
  \<open>h.k\<close> for the property names this program reads (\<open>id\<close>, \<open>protocol_name\<close>,
  \<open>address\<close>, ...): reading a property of \<open>undefined\<close> or \<open>null\<close> throws a TypeError; an
  object gives the property's value, or \<open>undefined\<close> when it has none; a boolean, a number,
  a string, a symbol or an array has none of these names and gives \<open>undefined\<close>.
\<close>

fun get_prop :: "jsval \<Rightarrow> string \<Rightarrow> js_error + jsval" where
  "get_prop Undefined k = Inl TypeError"
| "get_prop Null k = Inl TypeError"
| "get_prop (Obj ps) k = Inr (case map_of ps k of None \<Rightarrow> Undefined | Some v \<Rightarrow> v)"
| "get_prop v k = Inr Undefined"

text \<open>The same read once the receiver is known not to be \<open>undefined\<close> or \<open>null\<close>.\<close>

definition read_prop :: "jsval \<Rightarrow> string \<Rightarrow> jsval" where
  "read_prop h k = (case get_prop h k of Inl e \<Rightarrow> Undefined | Inr v \<Rightarrow> v)"

text \<open>
  Letter case. Wallet addresses and token symbols are ASCII; \<open>toUpperCase\<close> and
  \<open>toLowerCase\<close> map the 26 letters and leave every other character as it is.
\<close>

definition upper_char :: "char \<Rightarrow> char" where
  "upper_char c =
     (case map_of (zip ''abcdefghijklmnopqrstuvwxyz'' ''ABCDEFGHIJKLMNOPQRSTUVWXYZ'') c of
        None \<Rightarrow> c | Some u \<Rightarrow> u)"

definition lower_char :: "char \<Rightarrow> char" where
  "lower_char c =
     (case map_of (zip ''ABCDEFGHIJKLMNOPQRSTUVWXYZ'' ''abcdefghijklmnopqrstuvwxyz'') c of
        None \<Rightarrow> c | Some l \<Rightarrow> l)"

definition toUpperCase :: "string \<Rightarrow> string" where
  "toUpperCase s = map upper_char s"

definition toLowerCase :: "string \<Rightarrow> string" where
  "toLowerCase s = map lower_char s"

text \<open>
  A method call \<open>v.toUpperCase()\<close> or \<open>v.toLowerCase()\<close> on an untyped value: only a string
  has the method; on anything else the call throws a TypeError.
\<close>

fun call_toUpperCase :: "jsval \<Rightarrow> js_error + string" where
  "call_toUpperCase (Str s) = Inr (toUpperCase s)"
| "call_toUpperCase v = Inl TypeError"

fun call_toLowerCase :: "jsval \<Rightarrow> js_error + string" where
  "call_toLowerCase (Str s) = Inr (toLowerCase s)"
| "call_toLowerCase v = Inl TypeError"

text \<open>
  Built-in conversions whose results depend on the double format, on locale data or on
  the engine are not this program's code; they are parameters of the model:
  \<^item> \<open>string_to_number\<close>: the number a text denotes (\<open>Number('12')\<close>, \<open>Number('abc')\<close>);
  it never throws;
  \<^item> \<open>number_text\<close>: the text of a number (\<open>String(1.5)\<close>, \<open>String(1e21)\<close>);
  \<^item> \<open>format_usd\<close>: \<open>Intl.NumberFormat('en-US', {style: 'currency', currency: 'USD',
  minimumFractionDigits: 2, maximumFractionDigits: 2}).format\<close>;
  \<^item> \<open>max_string_length\<close>: the longest string the engine makes; building a longer one
  throws a RangeError.
\<close>

record builtins =
  string_to_number :: "string \<Rightarrow> jsnum"
  number_text :: "jsnum \<Rightarrow> string"
  format_usd :: "jsnum \<Rightarrow> string"
  max_string_length :: nat

text \<open>
  \<open>s.repeat(n)\<close> for a natural number \<open>n\<close>, and \<open>a + b\<close> on strings: a RangeError when the
  result would be longer than the engine's strings can be.
\<close>

definition repeat :: "builtins \<Rightarrow> string \<Rightarrow> nat \<Rightarrow> js_error + string" where
  "repeat B s n =
     (if length s * n > max_string_length B then Inl RangeError
      else Inr (concat (replicate n s)))"

definition js_concat :: "builtins \<Rightarrow> string \<Rightarrow> string \<Rightarrow> js_error + string" where
  "js_concat B a b =
     (if length a + length b > max_string_length B then Inl RangeError else Inr (a @ b))"

text \<open>
  The text of a value (\<open>ToString\<close>). A symbol has none: TypeError. An array is joined:
  from the empty text, for each element in order, a comma is appended (not before the
  first), then the element's text, \<open>undefined\<close> and \<open>null\<close> giving the empty text. An
  object is converted by its \<open>toString\<close> and \<open>valueOf\<close> methods: when it has an own
  property \<open>toString\<close> (which is data, not a function) no method gives a primitive and the
  conversion throws a TypeError; otherwise the inherited \<open>toString\<close> gives
  \<open>[object Object]\<close>.
\<close>

fun to_text :: "builtins \<Rightarrow> jsval \<Rightarrow> js_error + string"
  and join_text :: "builtins \<Rightarrow> string \<Rightarrow> bool \<Rightarrow> jsval list \<Rightarrow> js_error + string" where
  "to_text B Undefined = Inr ''undefined''"
| "to_text B Null = Inr ''null''"
| "to_text B (Bool b) = Inr (if b then ''true'' else ''false'')"
| "to_text B (Num n) = Inr (number_text B n)"
| "to_text B (Str s) = Inr s"
| "to_text B (Symbol s) = Inl TypeError"
| "to_text B (Arr xs) = join_text B [] True xs"
| "to_text B (Obj ps) =
     (if ''toString'' \<in> set (map fst ps) then Inl TypeError else Inr ''[object Object]'')"
| "join_text B r first [] = Inr r"
| "join_text B r first (x # xs) =
     (case (if first then Inr r else js_concat B r '','') of
        Inl e \<Rightarrow> Inl e
      | Inr r1 \<Rightarrow>
          (case (if x = Undefined \<or> x = Null then Inr [] else to_text B x) of
             Inl e \<Rightarrow> Inl e
           | Inr t \<Rightarrow>
               (case js_concat B r1 t of
                  Inl e \<Rightarrow> Inl e
                | Inr r2 \<Rightarrow> join_text B r2 False xs)))"

text \<open>
  \<open>Number(v)\<close>: a symbol throws a TypeError; an array or an object is converted through
  its text, and throws when that does.
\<close>

fun Number :: "builtins \<Rightarrow> jsval \<Rightarrow> js_error + jsnum" where
  "Number B Undefined = Inr NaN"
| "Number B Null = Inr (Fin 0)"
| "Number B (Bool b) = Inr (Fin (if b then 1 else 0))"
| "Number B (Num n) = Inr n"
| "Number B (Str s) = Inr (string_to_number B s)"
| "Number B (Symbol s) = Inl TypeError"
| "Number B v = (case to_text B v of Inl e \<Rightarrow> Inl e | Inr t \<Rightarrow> Inr (string_to_number B t))"

definition isNaN :: "jsnum \<Rightarrow> bool" where
  "isNaN n = (n = NaN)"

text \<open>
  \<open>Number.prototype.toFixed(f)\<close>, as ECMAScript defines it, for a natural number \<open>f\<close>:
  a RangeError when \<open>f > 100\<close>; the name of a non-finite number; from \<open>10^21\<close> on the
  number's text (\<open>1e+21\<close>) after the sign; otherwise the digits of the integer \<open>n\<close> nearest
  to \<open>x * 10^f\<close> (the larger of two), padded with zeros to more than \<open>f\<close> digits, with the
  point before the last \<open>f\<close>.
\<close>

definition digit_char :: "nat \<Rightarrow> char" where
  "digit_char d = ''0123456789'' ! (d mod 10)"

fun nat_digits :: "nat \<Rightarrow> string" where
  "nat_digits n = (if n < 10 then [digit_char n] else nat_digits (n div 10) @ [digit_char (n mod 10)])"

declare nat_digits.simps [simp del]

definition nearest_scaled :: "rat \<Rightarrow> nat \<Rightarrow> nat" where
  "nearest_scaled x f = nat \<lfloor>x * 10 ^ f + 1 / 2\<rfloor>"

definition fixed_digits :: "rat \<Rightarrow> nat \<Rightarrow> string" where
  "fixed_digits x f =
     (let m = nat_digits (nearest_scaled x f)
      in if f \<noteq> 0
         then (let m1 = (if length m \<le> f then replicate (f + 1 - length m) CHR ''0'' @ m else m);
                   k = length m1
               in take (k - f) m1 @ ''.'' @ drop (k - f) m1)
         else m)"

fun toFixed :: "builtins \<Rightarrow> jsnum \<Rightarrow> nat \<Rightarrow> js_error + string" where
  "toFixed B x f =
     (if f > 100 then Inl RangeError
      else case x of
             NaN \<Rightarrow> Inr ''NaN''
           | PosInfinity \<Rightarrow> Inr ''Infinity''
           | NegInfinity \<Rightarrow> Inr ''-Infinity''
           | Fin q \<Rightarrow>
               (if \<bar>q\<bar> \<ge> 10 ^ 21
                then Inr ((if q < 0 then ''-'' else '''') @ number_text B (Fin \<bar>q\<bar>))
                else Inr ((if q < 0 then ''-'' else '''') @ fixed_digits \<bar>q\<bar> f)))"

definition bind_sum :: "js_error + 'a \<Rightarrow> ('a \<Rightarrow> js_error + 'b) \<Rightarrow> js_error + 'b" where
  "bind_sum m f = (case m of Inl e \<Rightarrow> Inl e | Inr v \<Rightarrow> f v)"

definition try_sum :: "js_error + 'a \<Rightarrow> (js_error \<Rightarrow> js_error + 'a) \<Rightarrow> js_error + 'a" where
  "try_sum body handler = (case body of Inl e \<Rightarrow> handler e | Inr v \<Rightarrow> Inr v)"

section \<open>Holdings and safe formatting (\<open>frontend/src/lib/normalizeHoldings.ts\<close>)\<close>

record NormalizedHolding =
  id_field :: jsval
  protocol_name :: jsval
  token_symbol :: string
  amount :: jsnum
  apy :: jsnum
  value_usd :: jsnum
  last_updated :: jsval

text \<open>
  The callback of \<open>holdings.map\<close>; the properties of the result are evaluated in the
  order written. Reading \<open>h.id\<close> throws when \<open>h\<close> is \<open>undefined\<close> or \<open>null\<close>; after that
  every property read succeeds. \<open>toUpperCase\<close> throws on a truthy token symbol that is
  not a string, and each \<open>Number(...)\<close> throws when the conversion does.
\<close>

definition normalize_entry :: "builtins \<Rightarrow> jsval \<Rightarrow> nat \<Rightarrow> js_error + NormalizedHolding" where
  "normalize_entry B h index =
     bind_sum (get_prop h ''id'') (\<lambda>hid.
     bind_sum (call_toUpperCase
                 (js_or (read_prop h ''token_symbol'') (js_or (read_prop h ''symbol'') (Str ''''))))
       (\<lambda>upper.
     bind_sum (Number B (nullish_or (read_prop h ''amount'')
                 (nullish_or (read_prop h ''balance'') (Num (Fin 0))))) (\<lambda>amount_num.
     bind_sum (Number B (nullish_or (read_prop h ''apy'') (Num (Fin 0)))) (\<lambda>apy_num.
     bind_sum (Number B (nullish_or (read_prop h ''value_usd'') (Num (Fin 0)))) (\<lambda>value_num.
       Inr \<lparr> id_field = (if hid \<noteq> Undefined then hid else Num (Fin (of_nat index))),
             protocol_name =
               js_or (read_prop h ''protocol_name'')
                 (js_or (read_prop h ''protocol'') (js_or (read_prop h ''provider'') (Str ''Unknown''))),
             token_symbol = upper,
             amount = amount_num,
             apy = apy_num,
             value_usd = value_num,
             last_updated =
               js_or (read_prop h ''updated_at'') (js_or (read_prop h ''last_updated'') Null) \<rparr>)))))"

text \<open>\<open>Array.prototype.map\<close> with a callback that may throw: the first throw ends the call.\<close>

fun map_from :: "(jsval \<Rightarrow> nat \<Rightarrow> js_error + 'a) \<Rightarrow> nat \<Rightarrow> jsval list \<Rightarrow> js_error + 'a list" where
  "map_from f i [] = Inr []"
| "map_from f i (h # hs) =
     (case f h i of
        Inl e \<Rightarrow> Inl e
      | Inr y \<Rightarrow> (case map_from f (Suc i) hs of Inl e \<Rightarrow> Inl e | Inr ys \<Rightarrow> Inr (y # ys)))"

text \<open>The parameter's default \<open>= []\<close> replaces \<open>undefined\<close> only.\<close>

fun normalizeHoldings :: "builtins \<Rightarrow> jsval \<Rightarrow> js_error + NormalizedHolding list" where
  "normalizeHoldings B Undefined = map_from (normalize_entry B) 0 []"
| "normalizeHoldings B (Arr holdings) = map_from (normalize_entry B) 0 holdings"
| "normalizeHoldings B v = Inr []"

text \<open>
  The formatters. \<open>Number(value ?? 0)\<close> comes first and is outside any \<open>try\<close>; in the NaN
  branch the zeros are made by \<open>'0'.repeat(decimals)\<close> and joined with \<open>+\<close>.
\<close>

definition safeToFixed :: "builtins \<Rightarrow> jsval \<Rightarrow> nat \<Rightarrow> js_error + string" where
  "safeToFixed B v decimals =
     bind_sum (Number B (nullish_or v (Num (Fin 0)))) (\<lambda>num.
       if isNaN num
       then bind_sum (repeat B ''0'' decimals) (\<lambda>zeros. js_concat B ''0.'' zeros)
       else toFixed B num decimals)"

definition safeCurrency :: "builtins \<Rightarrow> jsval \<Rightarrow> js_error + string" where
  "safeCurrency B v =
     bind_sum (Number B (nullish_or v (Num (Fin 0)))) (\<lambda>num.
       if isNaN num then Inr ''$0.00''
       else Inr (format_usd B num))"

definition safePercent :: "builtins \<Rightarrow> jsval \<Rightarrow> nat \<Rightarrow> js_error + string" where
  "safePercent B v decimals =
     bind_sum (Number B (nullish_or v (Num (Fin 0)))) (\<lambda>num.
       if isNaN num
       then bind_sum (repeat B ''0'' decimals) (\<lambda>zeros.
            bind_sum (js_concat B ''0.'' zeros) (\<lambda>s. js_concat B s ''%''))
       else bind_sum (toFixed B num decimals) (\<lambda>s. js_concat B s ''%''))"

text \<open>
  A string in fixed-point notation with exactly \<open>d\<close> fraction digits: an optional minus
  sign, at least one digit, and then either nothing (only when \<open>d = 0\<close>) or a point
  followed by exactly \<open>d\<close> digits.
\<close>

definition is_digit :: "char \<Rightarrow> bool" where
  "is_digit c = (c \<in> set ''0123456789'')"

definition fixed_body :: "nat \<Rightarrow> string \<Rightarrow> bool" where
  "fixed_body d body =
     (let whole = takeWhile (\<lambda>c. c \<noteq> CHR ''.'') body;
          rest = dropWhile (\<lambda>c. c \<noteq> CHR ''.'') body
      in whole \<noteq> [] \<and> list_all is_digit whole
         \<and> (case rest of
               [] \<Rightarrow> d = 0
             | p # fraction \<Rightarrow> length fraction = d \<and> list_all is_digit fraction))"

definition fixed_point :: "nat \<Rightarrow> string \<Rightarrow> bool" where
  "fixed_point d s =
     (case s of
        [] \<Rightarrow> False
      | c # r \<Rightarrow> if c = CHR ''-'' then fixed_body d r else fixed_body d s)"

text \<open>
  The values whose conversion to a number never throws: everything but a symbol, an
  array and an object.
\<close>

fun primitive :: "jsval \<Rightarrow> bool" where
  "primitive (Symbol s) = False"
| "primitive (Arr xs) = False"
| "primitive (Obj ps) = False"
| "primitive v = True"

text \<open>A conversion that returns.\<close>

definition converts :: "builtins \<Rightarrow> jsval \<Rightarrow> bool" where
  "converts B v = (case Number B v of Inl e \<Rightarrow> False | Inr n \<Rightarrow> True)"

text \<open>
  An instance of the built-in parameters, for evaluating the model on concrete inputs.
  It agrees with the built-ins on the texts and numbers met there: the empty text is 0, a
  text of decimal digits is that number, a text with a letter such as \<open>abc\<close> or
  \<open>[object Object]\<close> is NaN; an integer below \<open>10^21\<close> is written with its digits; and the
  longest string has \<open>2^29 - 24\<close> characters. No concrete input formats a currency amount
  other than 0.
\<close>

definition digits_value :: "string \<Rightarrow> nat" where
  "digits_value s = foldl (\<lambda>n c. 10 * n + (of_char c - 48)) 0 s"

definition plain_builtins :: builtins where
  "plain_builtins =
     \<lparr> string_to_number =
         (\<lambda>s. if list_all is_digit s then Fin (of_nat (digits_value s)) else NaN),
       number_text =
         (\<lambda>n. case n of
                 NaN \<Rightarrow> ''NaN''
               | PosInfinity \<Rightarrow> ''Infinity''
               | NegInfinity \<Rightarrow> ''-Infinity''
               | Fin q \<Rightarrow> (if q < 0 then ''-'' else '''') @ nat_digits (nat \<lfloor>\<bar>q\<bar>\<rfloor>)),
       format_usd = (\<lambda>n. ''$0.00''),
       max_string_length = 536870888 \<rparr>"

text \<open>
  The first truthy value of a list of alternatives, and a default when none is truthy:
  what a chain \<open>a || b || c || d\<close> selects.
\<close>

definition first_truthy :: "jsval list \<Rightarrow> jsval \<Rightarrow> jsval" where
  "first_truthy vs d = (case filter truthy vs of [] \<Rightarrow> d | v # _ \<Rightarrow> v)"

text \<open>The first value that is neither \<open>undefined\<close> nor \<open>null\<close>: a chain \<open>a ?? b ?? d\<close>.\<close>

definition first_non_nullish :: "jsval list \<Rightarrow> jsval \<Rightarrow> jsval" where
  "first_non_nullish vs d = (case filter (\<lambda>v. \<not> nullish v) vs of [] \<Rightarrow> d | v # _ \<Rightarrow> v)"

fun is_Str :: "jsval \<Rightarrow> bool" where
  "is_Str (Str s) = True"
| "is_Str v = False"

text \<open>
  The elements \<open>normalizeHoldings\<close> maps without throwing: neither \<open>undefined\<close> nor \<open>null\<close>,
  the token symbol selected (\<open>token_symbol\<close>, else \<open>symbol\<close>, when truthy) is a string, and
  the conversions of \<open>amount ?? balance ?? 0\<close>, \<open>apy ?? 0\<close> and \<open>value_usd ?? 0\<close> to numbers
  return.
\<close>

definition entry_ok :: "builtins \<Rightarrow> jsval \<Rightarrow> bool" where
  "entry_ok B h =
     (\<not> nullish h
      \<and> is_Str (first_truthy [read_prop h ''token_symbol'', read_prop h ''symbol''] (Str ''''))
      \<and> converts B (first_non_nullish [read_prop h ''amount'', read_prop h ''balance''] (Num (Fin 0)))
      \<and> converts B (nullish_or (read_prop h ''apy'') (Num (Fin 0)))
      \<and> converts B (nullish_or (read_prop h ''value_usd'') (Num (Fin 0))))"

definition sample_holdings :: "jsval list" where
  "sample_holdings =
     [Obj [(''id'', Num (Fin 0)), (''protocol'', Str ''Aave''), (''symbol'', Str ''usdc''),
           (''balance'', Num (Fin 5))],
      Obj [(''protocol_name'', Str ''''), (''provider'', Str ''Lido''), (''token_symbol'', Str ''stETH''),
           (''amount'', Num (Fin (3 / 2)))],
      Num (Fin 3)]"

text \<open>An object whose conversion to a number throws: \<open>{valueOf: 1, toString: 1}\<close>.\<close>

definition unconvertible :: jsval where
  "unconvertible = Obj [(''valueOf'', Num (Fin 1)), (''toString'', Num (Fin 1))]"

section \<open>On-chain balances (\<open>frontend/src/lib/balanceFetcher.ts\<close>)\<close>

text \<open>
  The requests a wallet provider can be sent. \<open>provider.getBalance\<close> is \<open>eth_getBalance\<close>;
  a call of a contract's view function (\<open>balanceOf\<close>, \<open>decimals\<close>) is \<open>eth_call\<close>; a
  transfer or an approval would be \<open>eth_sendTransaction\<close>.
\<close>

datatype erc20_view = BalanceOf string | Decimals

datatype rpc_request =
    Eth_getBalance string
  | Eth_call string erc20_view
  | Eth_sendTransaction string string

fun read_only :: "rpc_request \<Rightarrow> bool" where
  "read_only (Eth_getBalance a) = True"
| "read_only (Eth_call c f) = True"
| "read_only (Eth_sendTransaction c d) = False"

text \<open>
  What the chain and the ethers library answer is not this program's: a provider is the
  answers it gives. \<open>formatUnits p v d\<close> stands for \<open>Number(ethers.formatUnits(v, d))\<close>, and
  \<open>formatEther\<close> is \<open>formatUnits\<close> with 18 decimals. Each answer is a value or a throw.
\<close>

record provider =
  newBrowserProvider :: "js_error + unit"
  getBalance :: "string \<Rightarrow> js_error + int"
  newContract :: "string \<Rightarrow> js_error + unit"
  balanceOf :: "string \<Rightarrow> string \<Rightarrow> js_error + int"
  decimals :: "string \<Rightarrow> js_error + int"
  formatUnits :: "int \<Rightarrow> int \<Rightarrow> js_error + jsnum"

text \<open>
  A computation that sends requests and ends in a value or a throw: the requests sent, in
  order, and the outcome.
\<close>

type_synonym 'a rpc = "rpc_request list \<times> (js_error + 'a)"

definition ret :: "'a \<Rightarrow> 'a rpc" where
  "ret x = ([], Inr x)"

definition lift :: "js_error + 'a \<Rightarrow> 'a rpc" where
  "lift r = ([], r)"

definition request :: "rpc_request \<Rightarrow> js_error + 'a \<Rightarrow> 'a rpc" where
  "request rq answer = ([rq], answer)"

definition bind_rpc :: "'a rpc \<Rightarrow> ('a \<Rightarrow> 'b rpc) \<Rightarrow> 'b rpc" where
  "bind_rpc m f =
     (case snd m of
        Inl e \<Rightarrow> (fst m, Inl e)
      | Inr v \<Rightarrow> (fst m @ fst (f v), snd (f v)))"

definition try_catch :: "'a rpc \<Rightarrow> (js_error \<Rightarrow> 'a rpc) \<Rightarrow> 'a rpc" where
  "try_catch body handler =
     (case snd body of
        Inl e \<Rightarrow> (fst body @ fst (handler e), snd (handler e))
      | Inr v \<Rightarrow> body)"

text \<open>
  \<open>Promise.all\<close>: every promise has been started, so every request is sent; the outcome is
  the list of values, or the first rejection.
\<close>

fun all_values :: "(js_error + 'a) list \<Rightarrow> js_error + 'a list" where
  "all_values [] = Inr []"
| "all_values (r # rs) =
     (case r of
        Inl e \<Rightarrow> Inl e
      | Inr v \<Rightarrow> (case all_values rs of Inl e \<Rightarrow> Inl e | Inr vs \<Rightarrow> Inr (v # vs)))"

definition promise_all :: "'a rpc list \<Rightarrow> 'a list rpc" where
  "promise_all ms = (concat (map fst ms), all_values (map snd ms))"

definition promise_both :: "'a rpc \<Rightarrow> 'b rpc \<Rightarrow> ('a \<times> 'b) rpc" where
  "promise_both m1 m2 =
     (fst m1 @ fst m2,
      case snd m1 of
        Inl e \<Rightarrow> Inl e
      | Inr a \<Rightarrow> (case snd m2 of Inl e \<Rightarrow> Inl e | Inr b \<Rightarrow> Inr (a, b)))"

definition MAINNET_TOKENS :: "(string \<times> string) list" where
  "MAINNET_TOKENS =
     [(''USDC'', ''0xA0b86991c6218b36c1d19D4a2e9Eb0cE3606eB48''),
      (''DAI'', ''0x6B175474E89094C44Da98b954EedeAC495271d0F''),
      (''WETH'', ''0xC02aaA39b223FE8D0A0e5C4F27eAD9083C756Cc2''),
      (''USDT'', ''0xdAC17F958D2ee523a2206206994597C13D831ec7''),
      (''AAVE'', ''0x7Fc66500c84A76Ad7e9c93437bFc5Ac33E2DDaE9'')]"

text \<open>The inner \<open>try\<close> around the ETH balance.\<close>

definition fetch_eth :: "provider \<Rightarrow> string \<Rightarrow> jsnum rpc" where
  "fetch_eth p address =
     try_catch
       (bind_rpc (request (Eth_getBalance address) (getBalance p address))
          (\<lambda>ethBalance. lift (formatUnits p ethBalance 18)))
       (\<lambda>error. ret (Fin 0))"

text \<open>The callback of \<open>Object.entries(tokens).map\<close>, with its own \<open>try\<close>.\<close>

definition fetch_token :: "provider \<Rightarrow> string \<Rightarrow> string \<times> string \<Rightarrow> (string \<times> jsnum) rpc" where
  "fetch_token p address entry =
     (let symbol = fst entry; contractAddress = snd entry
      in try_catch
           (bind_rpc (lift (newContract p contractAddress))
              (\<lambda>token.
                 bind_rpc
                   (promise_both
                      (request (Eth_call contractAddress (BalanceOf address))
                         (balanceOf p contractAddress address))
                      (request (Eth_call contractAddress Decimals) (decimals p contractAddress)))
                   (\<lambda>bd. bind_rpc (lift (formatUnits p (fst bd) (snd bd)))
                           (\<lambda>balance. ret (symbol, balance)))))
           (\<lambda>error. ret (symbol, Fin 0)))"

text \<open>\<open>balances[symbol] = balance\<close> for every token result, in order.\<close>

definition add_results :: "TokenBalances \<Rightarrow> (string \<times> jsnum) list \<Rightarrow> TokenBalances" where
  "add_results balances tokenResults =
     foldl (\<lambda>b r. AList.update (fst r) (snd r) b) balances tokenResults"

text \<open>
  \<open>window_ethereum\<close> is \<open>None\<close> when \<open>window\<close> is undefined or \<open>window.ethereum\<close> is falsy.
  \<open>tokens\<close> are the entries of the \<open>tokens\<close> object, in enumeration order.
\<close>

definition getTokenBalances ::
  "provider option \<Rightarrow> string \<Rightarrow> (string \<times> string) list \<Rightarrow> TokenBalances rpc" where
  "getTokenBalances window_ethereum address tokens =
     try_catch
       (case window_ethereum of
          None \<Rightarrow> ret []
        | Some p \<Rightarrow>
            bind_rpc (lift (newBrowserProvider p))
              (\<lambda>provider.
                 bind_rpc (fetch_eth p address)
                   (\<lambda>eth.
                      bind_rpc (promise_all (map (fetch_token p address) tokens))
                        (\<lambda>tokenResults. ret (add_results [(''ETH'', eth)] tokenResults)))))
       (\<lambda>error. ret [])"

text \<open>What one token's entry of the result is: its formatted balance, or 0 after any throw.\<close>

definition token_balance :: "provider \<Rightarrow> string \<Rightarrow> string \<Rightarrow> jsnum" where
  "token_balance p address contractAddress =
     (case newContract p contractAddress of
        Inl e \<Rightarrow> Fin 0
      | Inr token \<Rightarrow>
          (case balanceOf p contractAddress address of
             Inl e \<Rightarrow> Fin 0
           | Inr b \<Rightarrow>
               (case decimals p contractAddress of
                  Inl e \<Rightarrow> Fin 0
                | Inr d \<Rightarrow> (case formatUnits p b d of Inl e \<Rightarrow> Fin 0 | Inr n \<Rightarrow> n))))"

text \<open>The \<open>ETH\<close> entry of the result: the formatted balance, or 0 after any throw.\<close>

definition eth_balance :: "provider \<Rightarrow> string \<Rightarrow> jsnum" where
  "eth_balance p address =
     (case getBalance p address of
        Inl e \<Rightarrow> Fin 0
      | Inr wei \<Rightarrow> (case formatUnits p wei 18 of Inl e \<Rightarrow> Fin 0 | Inr n \<Rightarrow> n))"

text \<open>A provider for evaluating the model: the DAI contract does not answer.\<close>

definition sample_provider :: provider where
  "sample_provider =
     \<lparr> newBrowserProvider = Inr (),
       getBalance = (\<lambda>a. Inr 2000000000000000000),
       newContract = (\<lambda>c. Inr ()),
       balanceOf = (\<lambda>c a. if c = ''0x6B175474E89094C44Da98b954EedeAC495271d0F''
                           then Inl (Rejected ''call revert'') else Inr 5000000),
       decimals = (\<lambda>c. Inr 6),
       formatUnits = (\<lambda>v d. Inr (Fin (of_int v / 10 ^ nat d))) \<rparr>"

section \<open>The balance cache (\<open>frontend/src/lib/balanceFetcher.ts\<close>)\<close>

text \<open>
  \<open>localStorage\<close> holds strings. The cache only ever parses what it reads, so a stored
  string is kept as what \<open>JSON.parse\<close> makes of it: \<open>Json v\<close> is the text of the JSON document
  \<open>v\<close>, and \<open>Unparsable s\<close> is a text \<open>s\<close> that \<open>JSON.parse\<close> rejects with a SyntaxError (the
  empty string is one). \<open>JSON.stringify\<close> writes \<open>null\<close> for \<open>NaN\<close> and the infinities and
  for \<open>undefined\<close> or a symbol in an array, and leaves out an object's members that are
  \<open>undefined\<close> or a symbol; parsing its text gives the value back.
\<close>

datatype item = Unparsable string | Json jsval

fun is_Symbol :: "jsval \<Rightarrow> bool" where
  "is_Symbol (Symbol s) = True"
| "is_Symbol v = False"

fun to_json :: "jsval \<Rightarrow> jsval" where
  "to_json Undefined = Null"
| "to_json Null = Null"
| "to_json (Bool b) = Bool b"
| "to_json (Num n) = (case n of Fin q \<Rightarrow> Num (Fin q) | _ \<Rightarrow> Null)"
| "to_json (Str s) = Str s"
| "to_json (Symbol s) = Null"
| "to_json (Arr xs) = Arr (map to_json xs)"
| "to_json (Obj ps) =
     Obj (map (\<lambda>p. (fst p, to_json (snd p)))
            (filter (\<lambda>p. snd p \<noteq> Undefined \<and> \<not> is_Symbol (snd p)) ps))"

fun JSON_stringify :: "jsval \<Rightarrow> item" where
  "JSON_stringify Undefined = Unparsable ''undefined''"
| "JSON_stringify (Symbol s) = Unparsable ''undefined''"
| "JSON_stringify v = Json (to_json v)"

fun JSON_parse :: "item \<Rightarrow> js_error + jsval" where
  "JSON_parse (Unparsable s) = Inl SyntaxError"
| "JSON_parse (Json v) = Inr v"

text \<open>
  The storage: its items, and whether writing fails (the quota is exceeded, or storage
  is disabled). The global \<open>localStorage\<close> itself is missing outside the browser; any
  access then throws a ReferenceError.
\<close>

record localStorage =
  items :: "string \<Rightarrow> item option"
  quota_exceeded :: bool

fun getItem :: "localStorage option \<Rightarrow> string \<Rightarrow> js_error + item option" where
  "getItem None k = Inl ReferenceError"
| "getItem (Some st) k = Inr (items st k)"

fun setItem :: "localStorage option \<Rightarrow> string \<Rightarrow> item \<Rightarrow> js_error + localStorage option" where
  "setItem None k v = Inl ReferenceError"
| "setItem (Some st) k v =
     (if quota_exceeded st then Inl QuotaExceededError
      else Inr (Some (st\<lparr>items := (items st)(k \<mapsto> v)\<rparr>)))"

fun removeItem :: "localStorage option \<Rightarrow> string \<Rightarrow> js_error + localStorage option" where
  "removeItem None k = Inl ReferenceError"
| "removeItem (Some st) k = Inr (Some (st\<lparr>items := (items st)(k := None)\<rparr>))"

text \<open>Subtraction and \<open><\<close> on numbers.\<close>

fun js_sub :: "jsnum \<Rightarrow> jsnum \<Rightarrow> jsnum" where
  "js_sub (Fin a) (Fin b) = Fin (a - b)"
| "js_sub NaN y = NaN"
| "js_sub x NaN = NaN"
| "js_sub PosInfinity PosInfinity = NaN"
| "js_sub NegInfinity NegInfinity = NaN"
| "js_sub PosInfinity y = PosInfinity"
| "js_sub NegInfinity y = NegInfinity"
| "js_sub (Fin a) PosInfinity = NegInfinity"
| "js_sub (Fin a) NegInfinity = PosInfinity"

fun js_less :: "jsnum \<Rightarrow> jsnum \<Rightarrow> bool" where
  "js_less (Fin a) (Fin b) = (a < b)"
| "js_less NaN y = False"
| "js_less x NaN = False"
| "js_less NegInfinity NegInfinity = False"
| "js_less NegInfinity y = True"
| "js_less x PosInfinity = (x \<noteq> PosInfinity)"
| "js_less PosInfinity y = False"
| "js_less (Fin a) NegInfinity = False"

definition BALANCE_CACHE_KEY :: string where
  "BALANCE_CACHE_KEY = ''wallet_balances_cache''"

definition CACHE_DURATION :: rat where
  "CACHE_DURATION = 5 * 60 * 1000"

text \<open>A balance map as a value: the object with one number per symbol.\<close>

definition balances_val :: "TokenBalances \<Rightarrow> jsval" where
  "balances_val b = Obj (map (\<lambda>e. (fst e, Num (snd e))) b)"

text \<open>
  \<open>getCachedBalances\<close>; \<open>now\<close> is \<open>Date.now()\<close>, in milliseconds. \<open>!cached\<close> holds for
  \<open>null\<close> (no item) and for the empty string. The right operand of \<open>&&\<close> is evaluated
  only when the addresses agree; its subtraction converts \<open>data.timestamp\<close> to a number.
\<close>

definition getCachedBalances ::
  "builtins \<Rightarrow> localStorage option \<Rightarrow> int \<Rightarrow> string \<Rightarrow> js_error + jsval" where
  "getCachedBalances B ls now address =
     try_sum
       (bind_sum (getItem ls BALANCE_CACHE_KEY)
          (\<lambda>cached.
             case cached of
               None \<Rightarrow> Inr Null
             | Some text \<Rightarrow>
                 if text = Unparsable [] then Inr Null
                 else bind_sum (JSON_parse text)
                   (\<lambda>data.
                      bind_sum (get_prop data ''address'')
                        (\<lambda>a. bind_sum (call_toLowerCase a)
                           (\<lambda>lowered.
                              if lowered = toLowerCase address
                              then bind_sum (Number B (read_prop data ''timestamp''))
                                (\<lambda>timestamp.
                                   if js_less (js_sub (Fin (of_int now)) timestamp)
                                        (Fin CACHE_DURATION)
                                   then get_prop data ''balances''
                                   else Inr Null)
                              else Inr Null)))))
       (\<lambda>error. Inr Null)"

text \<open>
  \<open>cacheBalances\<close> returns nothing; its effect is the storage afterwards. A throw of
  \<open>setItem\<close> is caught and the storage stays as it was.
\<close>

definition cacheBalances ::
  "localStorage option \<Rightarrow> int \<Rightarrow> string \<Rightarrow> TokenBalances \<Rightarrow> localStorage option" where
  "cacheBalances ls now address balances =
     (let data = Obj [(''address'', Str address), (''balances'', balances_val balances),
                      (''timestamp'', Num (Fin (of_int now)))]
      in case setItem ls BALANCE_CACHE_KEY (JSON_stringify data) of
           Inl error \<Rightarrow> ls
         | Inr ls' \<Rightarrow> ls')"

definition clearBalanceCache :: "localStorage option \<Rightarrow> localStorage option" where
  "clearBalanceCache ls =
     (case removeItem ls BALANCE_CACHE_KEY of Inl error \<Rightarrow> ls | Inr ls' \<Rightarrow> ls')"

fun finite_num :: "jsnum \<Rightarrow> bool" where
  "finite_num (Fin q) = True"
| "finite_num n = False"

definition empty_storage :: "localStorage option" where
  "empty_storage = Some \<lparr> items = (\<lambda>k. None), quota_exceeded = False \<rparr>"

definition full_storage :: "localStorage option" where
  "full_storage = Some \<lparr> items = (\<lambda>k. None), quota_exceeded = True \<rparr>"

section \<open>Market alerts (\<open>frontend/src/app/dashboard/components/MarketAlerts.tsx\<close>)\<close>

















section \<open>The vault tables (\<open>backend/migrations/create_vaults_tables.sql\<close>)\<close>

text \<open>
  A row of \<open>vaults\<close>, one field per column of the \<open>CREATE TABLE\<close> statement; \<open>None\<close> is SQL
  \<open>NULL\<close>. Timestamps are milliseconds. The fields \<open>id\<close>, \<open>name\<close> and \<open>last_updated\<close> carry
  the table's name as a prefix.
\<close>

record vault =
  vault_id :: int
  vault_name :: "string option"
  description :: "string option"
  risk_level :: "string option"
  expected_apy :: "rat option"
  allocations :: "jsval option"
  vault_last_updated :: "int option"
  ai_description :: "string option"
  created_at :: "int option"
  updated_at :: "int option"

text \<open>A row of \<open>vault_ai_logs\<close>.\<close>

record vault_ai_log =
  log_id :: int
  log_vault_id :: "int option"
  event_type :: "string option"
  payload :: "jsval option"
  summary :: "string option"
  confidence :: "rat option"
  ai_model :: "string option"
  log_created_at :: "int option"

text \<open>The two tables and their \<open>SERIAL\<close> sequences.\<close>

record database =
  vaults :: "vault list"
  vault_ai_logs :: "vault_ai_log list"
  vaults_id_seq :: int
  vault_ai_logs_id_seq :: int

datatype sql_error = NotNullViolation string | ValueTooLong string | NumericOverflow string
  | ForeignKeyViolation string | NoSuchVault int

text \<open>
  A column of an \<open>INSERT\<close> is left out (its default applies, or \<open>NULL\<close> when it has none)
  or given a value, which may be \<open>NULL\<close>.
\<close>

datatype 'a given = Omitted | Given "'a option"

fun with_default :: "'a option \<Rightarrow> 'a given \<Rightarrow> 'a option" where
  "with_default d Omitted = d"
| "with_default d (Given v) = v"

text \<open>
  The column constraints. \<open>VARCHAR(n)\<close> refuses a longer text; \<open>DECIMAL(p, s)\<close> rounds to
  \<open>s\<close> fraction digits and refuses a value with more than \<open>p - s\<close> integer digits;
  \<open>NOT NULL\<close> refuses \<open>NULL\<close>.
\<close>

definition varchar_ok :: "nat \<Rightarrow> string option \<Rightarrow> bool" where
  "varchar_ok n v = (case v of None \<Rightarrow> True | Some s \<Rightarrow> length s \<le> n)"

definition round_scale :: "nat \<Rightarrow> rat \<Rightarrow> rat" where
  "round_scale s x =
     (if x < 0 then - of_int \<lfloor>- x * 10 ^ s + 1 / 2\<rfloor> / 10 ^ s
      else of_int \<lfloor>x * 10 ^ s + 1 / 2\<rfloor> / 10 ^ s)"

definition decimal_ok :: "nat \<Rightarrow> nat \<Rightarrow> rat option \<Rightarrow> bool" where
  "decimal_ok p s v = (case v of None \<Rightarrow> True | Some x \<Rightarrow> \<bar>round_scale s x\<bar> < 10 ^ (p - s))"

definition decimal_store :: "nat \<Rightarrow> rat option \<Rightarrow> rat option" where
  "decimal_store s v = map_option (round_scale s) v"

definition check_vault :: "vault \<Rightarrow> sql_error + vault" where
  "check_vault r =
     (if vault_name r = None then Inl (NotNullViolation ''name'')
      else if \<not> varchar_ok 150 (vault_name r) then Inl (ValueTooLong ''name'')
      else if \<not> varchar_ok 20 (risk_level r) then Inl (ValueTooLong ''risk_level'')
      else if \<not> decimal_ok 10 4 (expected_apy r) then Inl (NumericOverflow ''expected_apy'')
      else if allocations r = None then Inl (NotNullViolation ''allocations'')
      else Inr (r\<lparr>expected_apy := decimal_store 4 (expected_apy r)\<rparr>))"

text \<open>
  \<open>INSERT INTO vaults (...)\<close> at time \<open>now\<close>: \<open>id\<close> comes from the sequence, an omitted
  column takes its default (\<open>'medium'\<close>, \<open>0.0\<close>, \<open>CURRENT_TIMESTAMP\<close>), and the row is
  stored when it meets the constraints.
\<close>

record vault_insert =
  ins_name :: "string given"
  ins_description :: "string given"
  ins_risk_level :: "string given"
  ins_expected_apy :: "rat given"
  ins_allocations :: "jsval given"
  ins_ai_description :: "string given"

definition insert_vault :: "int \<Rightarrow> vault_insert \<Rightarrow> database \<Rightarrow> sql_error + database" where
  "insert_vault now ins db =
     (case check_vault
             \<lparr> vault_id = vaults_id_seq db,
               vault_name = with_default None (ins_name ins),
               description = with_default None (ins_description ins),
               risk_level = with_default (Some ''medium'') (ins_risk_level ins),
               expected_apy = with_default (Some 0) (ins_expected_apy ins),
               allocations = with_default None (ins_allocations ins),
               vault_last_updated = Some now,
               ai_description = with_default None (ins_ai_description ins),
               created_at = Some now,
               updated_at = Some now \<rparr> of
        Inl e \<Rightarrow> Inl e
      | Inr r \<Rightarrow> Inr (db\<lparr>vaults := vaults db @ [r], vaults_id_seq := vaults_id_seq db + 1\<rparr>))"

text \<open>
  \<open>UPDATE vaults SET ... WHERE id = vid\<close> at time \<open>now\<close>: \<open>change\<close> is the \<open>SET\<close> clause;
  the trigger \<open>update_vaults_updated_at\<close> then sets \<open>updated_at\<close>; a changed row must meet the
  constraints, or the statement fails and nothing is changed.
\<close>

fun update_rows :: "int \<Rightarrow> (vault \<Rightarrow> vault) \<Rightarrow> int \<Rightarrow> vault list \<Rightarrow> sql_error + vault list" where
  "update_rows now change vid [] = Inr []"
| "update_rows now change vid (r # rs) =
     (case (if vault_id r = vid then check_vault ((change r)\<lparr>updated_at := Some now\<rparr>) else Inr r) of
        Inl e \<Rightarrow> Inl e
      | Inr r' \<Rightarrow> (case update_rows now change vid rs of Inl e \<Rightarrow> Inl e | Inr rs' \<Rightarrow> Inr (r' # rs')))"

definition update_vault :: "int \<Rightarrow> (vault \<Rightarrow> vault) \<Rightarrow> int \<Rightarrow> database \<Rightarrow> sql_error + database" where
  "update_vault now change vid db =
     (case update_rows now change vid (vaults db) of
        Inl e \<Rightarrow> Inl e
      | Inr rs \<Rightarrow> Inr (db\<lparr>vaults := rs\<rparr>))"

text \<open>
  \<open>INSERT INTO vault_ai_logs (vault_id, event_type, payload, summary, confidence, ai_model)\<close>:
  \<open>event_type\<close> is \<open>NOT NULL\<close>, and a \<open>vault_id\<close> that is not \<open>NULL\<close> must be the \<open>id\<close> of a vault.
\<close>

definition insert_log ::
  "int \<Rightarrow> int option \<Rightarrow> string option \<Rightarrow> jsval option \<Rightarrow> string option \<Rightarrow> rat option \<Rightarrow>
   string option \<Rightarrow> database \<Rightarrow> sql_error + database" where
  "insert_log now vid ev pl sm cf model db =
     (if ev = None then Inl (NotNullViolation ''event_type'')
      else if \<not> varchar_ok 50 ev then Inl (ValueTooLong ''event_type'')
      else if \<not> decimal_ok 5 4 cf then Inl (NumericOverflow ''confidence'')
      else if \<not> varchar_ok 100 model then Inl (ValueTooLong ''ai_model'')
      else if (case vid of None \<Rightarrow> False | Some v \<Rightarrow> v \<notin> vault_id ` set (vaults db))
      then Inl (ForeignKeyViolation ''vault_id'')
      else Inr (db\<lparr>vault_ai_logs := vault_ai_logs db @
                  [\<lparr> log_id = vault_ai_logs_id_seq db, log_vault_id = vid, event_type = ev,
                     payload = pl, summary = sm, confidence = decimal_store 4 cf,
                     ai_model = model, log_created_at = Some now \<rparr>],
                vault_ai_logs_id_seq := vault_ai_logs_id_seq db + 1\<rparr>))"

text \<open>The tables right after \<open>CREATE TABLE\<close>: empty, the sequences at 1.\<close>

definition created_tables :: database where
  "created_tables = \<lparr> vaults = [], vault_ai_logs = [], vaults_id_seq = 1, vault_ai_logs_id_seq = 1 \<rparr>"

text \<open>The allocations of a vault as the JSON array \<open>[{"protocol_name": ..., "percent": ...}, ...]\<close>.\<close>

definition allocations_json :: "(string \<times> rat) list \<Rightarrow> jsval" where
  "allocations_json al =
     Arr (map (\<lambda>a. Obj [(''protocol_name'', Str (fst a)), (''percent'', Num (Fin (snd a)))]) al)"

text \<open>
  The sample data the migration inserts at its end: a vault, and a log entry for the first
  vault of that name (none when there is no such vault).
\<close>

definition sample_vault :: vault_insert where
  "sample_vault =
     \<lparr> ins_name = Given (Some ''AI Balanced Yield v1''),
       ins_description = Given (Some ''Optimized for steady growth using staking and lending pools''),
       ins_risk_level = Given (Some ''medium''),
       ins_expected_apy = Given (Some (435 / 100)),
       ins_allocations = Given (Some (allocations_json [(''lido'', 50), (''aave-v3'', 30), (''curve'', 20)])),
       ins_ai_description = Given (Some
         ''This vault balances liquid staking with lending protocols for stable returns'') \<rparr>"

definition insert_sample_log :: "int \<Rightarrow> database \<Rightarrow> sql_error + database" where
  "insert_sample_log now db =
     (case find (\<lambda>r. vault_name r = Some ''AI Balanced Yield v1'') (vaults db) of
        None \<Rightarrow> Inr db
      | Some r \<Rightarrow>
          insert_log now (Some (vault_id r)) (Some ''generate'')
            (Some (Obj [(''allocations'', allocations_json [(''lido'', 50)]),
                        (''reasoning'', Str ''Diversified allocation'')]))
            (Some ''Initial vault generation with balanced allocation'')
            (Some (85 / 100)) (Some ''llama-3.3-70b-versatile'') db)"

text \<open>
  Modelled from the spec: the output of the external LLM. The back end that generates and
  regenerates vaults is not among the sources (only the tables it writes and the client
  that calls \<open>POST /api/vaults/generate\<close> and \<open>POST /api/vaults/{id}/refresh\<close> are). The spec
  says: a vault is "a named, static set of protocol/percentage allocations stored as a
  database row, periodically regenerated by calling an external LLM and persisting its
  JSON output". The output is the new allocations, a description and an expected APY,
  with the raw JSON and the model's name.
\<close>

record llm_output =
  out_allocations :: "(string \<times> rat) list"
  out_description :: string
  out_expected_apy :: rat
  out_raw :: jsval
  out_model :: string

text \<open>
  Modelled from the spec: generating a vault, which the missing back end does on
  \<open>POST /api/vaults/generate\<close>. It inserts a row with the LLM's output and writes a
  \<open>'generate'\<close> log row for it.
\<close>

definition generate_vault ::
  "int \<Rightarrow> string \<Rightarrow> string \<Rightarrow> llm_output \<Rightarrow> database \<Rightarrow> sql_error + database" where
  "generate_vault now title risk out db =
     (case insert_vault now
             \<lparr> ins_name = Given (Some title), ins_description = Omitted,
               ins_risk_level = Given (Some risk),
               ins_expected_apy = Given (Some (out_expected_apy out)),
               ins_allocations = Given (Some (allocations_json (out_allocations out))),
               ins_ai_description = Given (Some (out_description out)) \<rparr> db of
        Inl e \<Rightarrow> Inl e
      | Inr db1 \<Rightarrow>
          insert_log now (Some (vaults_id_seq db)) (Some ''generate'') (Some (out_raw out))
            None None (Some (out_model out)) db1)"

text \<open>
  Modelled from the spec: regenerating a vault, which the missing back end does
  periodically and on \<open>POST /api/vaults/{id}/refresh\<close>. It persists the LLM's output in the
  vault's row (the columns \<open>allocations\<close>, \<open>ai_description\<close>, \<open>expected_apy\<close> and
  \<open>last_updated\<close>) and writes an \<open>'update'\<close> log row for it.
\<close>

definition regenerate_vault :: "int \<Rightarrow> int \<Rightarrow> llm_output \<Rightarrow> database \<Rightarrow> sql_error + database" where
  "regenerate_vault now vid out db =
     (if vid \<notin> vault_id ` set (vaults db) then Inl (NoSuchVault vid)
      else case update_vault now
                  (\<lambda>r. r\<lparr>allocations := Some (allocations_json (out_allocations out)),
                         ai_description := Some (out_description out),
                         expected_apy := Some (out_expected_apy out),
                         vault_last_updated := Some now\<rparr>) vid db of
             Inl e \<Rightarrow> Inl e
           | Inr db1 \<Rightarrow>
               insert_log now (Some vid) (Some ''update'') (Some (out_raw out))
                 None None (Some (out_model out)) db1)"

text \<open>
  The states of the vault tables: the created tables, and what the migration's sample
  inserts and the back end's two operations make of them.
\<close>

inductive vault_state :: "database \<Rightarrow> bool" where
  vs_created: "vault_state created_tables"
| vs_sample: "vault_state db \<Longrightarrow> insert_vault now sample_vault db = Inr db' \<Longrightarrow> vault_state db'"
| vs_sample_log: "vault_state db \<Longrightarrow> insert_sample_log now db = Inr db' \<Longrightarrow> vault_state db'"
| vs_generate: "vault_state db \<Longrightarrow> generate_vault now title risk out db = Inr db' \<Longrightarrow> vault_state db'"
| vs_regenerate: "vault_state db \<Longrightarrow> regenerate_vault now vid out db = Inr db' \<Longrightarrow> vault_state db'"

text \<open>A vault row that carries its name and its allocations as such an array.\<close>

definition vault_row_ok :: "vault \<Rightarrow> bool" where
  "vault_row_ok r =
     (vault_name r \<noteq> None \<and> (\<exists>al. allocations r = Some (allocations_json al)))"

definition sample_output :: llm_output where
  "sample_output =
     \<lparr> out_allocations = [(''lido'', 40), (''curve'', 60)],
       out_description = ''Moved 10% Aave -> Curve'',
       out_expected_apy = 5,
       out_raw = Obj [(''allocations'', allocations_json [(''lido'', 40), (''curve'', 60)])],
       out_model = ''llama-3.3-70b-versatile'' \<rparr>"

text \<open>A row after its regeneration at time \<open>now\<close>; \<open>expected_apy\<close> is stored as \<open>DECIMAL(10,4)\<close>.\<close>

definition regenerated :: "int \<Rightarrow> llm_output \<Rightarrow> vault \<Rightarrow> vault" where
  "regenerated now out r =
     r\<lparr>allocations := Some (allocations_json (out_allocations out)),
       ai_description := Some (out_description out),
       expected_apy := Some (round_scale 4 (out_expected_apy out)),
       vault_last_updated := Some now,
       updated_at := Some now\<rparr>"

text \<open>
  Every row carries its name and its allocations, has an \<open>id\<close> the sequence has passed,
  and shares its \<open>id\<close> with no other row.
\<close>

definition vaults_invariant :: "database \<Rightarrow> bool" where
  "vaults_invariant db =
     ((\<forall>r\<in>set (vaults db). vault_row_ok r \<and> vault_id r < vaults_id_seq db)
      \<and> distinct (map vault_id (vaults db)))"

definition sample_db :: database where
  "sample_db =
     (case insert_vault 1000 sample_vault created_tables of Inr db \<Rightarrow> db | Inl e \<Rightarrow> created_tables)"

definition regenerated_db :: database where
  "regenerated_db =
     (case regenerate_vault 2000 1 sample_output sample_db of Inr db \<Rightarrow> db | Inl e \<Rightarrow> sample_db)"

section \<open>Properties of the store\<close>

lemma DEMO_WALLET_nonempty: "DEMO_WALLET \<noteq> []"
  by (simp add: DEMO_WALLET_def)

lemma reachable_demoWallet: "reachable s \<Longrightarrow> demoWallet s = DEMO_WALLET"
  by (induction rule: reachable.induct)
     (simp_all add: initial_state_def setHasHydrated_def setMode_def setWalletAddress_def
        clearWallet_def setRiskPreference_def setTokenBalances_def setNetwork_def
        setLoadingBalances_def Let_def)

lemma reachable_empty_address_state: "reachable empty_address_state"
  unfolding empty_address_state_def by (intro reachable.intros)

lemma reachable_connected_state: "reachable connected_state"
  unfolding connected_state_def by (intro reachable.intros)

lemma address_or_nonempty: "d \<noteq> [] \<Longrightarrow> address_or a d \<noteq> []"
  by (cases a) auto

text \<open>
  C1, as stated, fails: in wallet mode with the non-null wallet address \<open>''\<close> the getter
  does not return the wallet address but the placeholder.
\<close>

theorem getActiveWallet_empty_address_counterexample:
  "reachable empty_address_state \<and> mode empty_address_state = Wallet
   \<and> walletAddress empty_address_state = Some []
   \<and> getActiveWallet empty_address_state \<noteq> the (walletAddress empty_address_state)
   \<and> getActiveWallet empty_address_state = DEMO_WALLET"
  using reachable_empty_address_state
  by (simp add: empty_address_state_def getActiveWallet_def setMode_def setWalletAddress_def
      initial_state_def DEMO_WALLET_def)

text \<open>
  C1 (amended): in every state of the store, \<open>getActiveWallet()\<close> returns the fixed placeholder
  \<open>0x742d35Cc6634C0532925a3b844Bc9e7595f0bEb\<close> (the \<open>demoWallet\<close> field) in demo mode,
  whatever \<open>walletAddress\<close> is; in wallet mode it returns \<open>walletAddress\<close> when that is
  non-null and non-empty, and the same placeholder when it is null or the empty string.
  So the result is never the empty string.
\<close>

theorem getActiveWallet_spec:
  assumes "reachable s"
  shows "(mode s = Demo \<longrightarrow> getActiveWallet s = DEMO_WALLET \<and> getActiveWallet s = demoWallet s)
       \<and> (mode s = Wallet \<longrightarrow>
            (\<forall>a. walletAddress s = Some a \<and> a \<noteq> [] \<longrightarrow> getActiveWallet s = a)
          \<and> (walletAddress s = None \<or> walletAddress s = Some [] \<longrightarrow>
               getActiveWallet s = DEMO_WALLET))
       \<and> getActiveWallet s \<noteq> []"
proof -
  have d: "demoWallet s = DEMO_WALLET"
    using assms by (rule reachable_demoWallet)
  have "getActiveWallet s \<noteq> []"
    using d DEMO_WALLET_nonempty address_or_nonempty [of "demoWallet s" "walletAddress s"]
    by (simp add: getActiveWallet_def)
  moreover have "mode s = Demo \<longrightarrow> getActiveWallet s = DEMO_WALLET \<and> getActiveWallet s = demoWallet s"
    using d by (simp add: getActiveWallet_def)
  moreover have "mode s = Wallet \<longrightarrow>
      (\<forall>a. walletAddress s = Some a \<and> a \<noteq> [] \<longrightarrow> getActiveWallet s = a)
    \<and> (walletAddress s = None \<or> walletAddress s = Some [] \<longrightarrow> getActiveWallet s = DEMO_WALLET)"
    using d by (auto simp: getActiveWallet_def)
  ultimately show ?thesis by blast
qed

theorem getActiveWallet_spec_witness:
  "reachable connected_state \<and> mode connected_state = Wallet
   \<and> walletAddress connected_state = Some ''0xAbC1''
   \<and> getActiveWallet connected_state = ''0xAbC1''
   \<and> getActiveWallet connected_state \<noteq> []"
  using getActiveWallet_spec [OF reachable_connected_state] reachable_connected_state
  by (simp add: connected_state_def setWalletAddress_def initial_state_def)

text \<open>
  C4, as stated, fails: in wallet mode with the non-null wallet address \<open>''\<close>,
  \<open>isConnected()\<close> is false.
\<close>

theorem isConnected_empty_address_counterexample:
  "mode empty_address_state = Wallet \<and> walletAddress empty_address_state \<noteq> None
   \<and> isConnected empty_address_state = False"
  by (simp add: empty_address_state_def isConnected_def setMode_def setWalletAddress_def
      initial_state_def)

text \<open>
  C4 (amended): in demo mode \<open>isConnected()\<close> is true even when \<open>walletAddress\<close> is null;
  in wallet mode it is true if and only if \<open>walletAddress\<close> is non-null and non-empty.
\<close>

theorem isConnected_spec:
  "(mode s = Demo \<longrightarrow> isConnected s)
   \<and> (mode s = Wallet \<longrightarrow>
        (isConnected s \<longleftrightarrow> (\<exists>a. walletAddress s = Some a \<and> a \<noteq> [])))"
  by (cases "walletAddress s") (auto simp: isConnected_def)

theorem isConnected_spec_witness:
  "mode initial_state = Demo \<and> walletAddress initial_state = None \<and> isConnected initial_state
   \<and> mode connected_state = Wallet \<and> isConnected connected_state
   \<and> mode (setMode Wallet initial_state) = Wallet
   \<and> \<not> isConnected (setMode Wallet initial_state)"
  using isConnected_spec [of initial_state] isConnected_spec [of connected_state]
    isConnected_spec [of "setMode Wallet initial_state"]
  by (simp add: connected_state_def setWalletAddress_def setMode_def initial_state_def)

text \<open>
  C9, as stated, fails: \<open>setWalletAddress('')\<close> on the initial state stores the non-null
  address \<open>''\<close> and leaves the mode at demo.
\<close>

theorem setWalletAddress_empty_address_counterexample:
  "walletAddress (setWalletAddress (Some []) initial_state) = Some []
   \<and> mode (setWalletAddress (Some []) initial_state) = Demo
   \<and> mode (setWalletAddress (Some []) initial_state) \<noteq> Wallet"
  by (simp add: setWalletAddress_def initial_state_def)

text \<open>
  C9 (amended): \<open>setWalletAddress(a)\<close> sets \<open>walletAddress\<close> to \<open>a\<close>; it sets the mode to
  wallet when \<open>a\<close> is non-null and non-empty, and leaves the mode unchanged when \<open>a\<close> is null
  or the empty string; every other field of the state is unchanged.
\<close>

theorem setWalletAddress_spec:
  "walletAddress (setWalletAddress a s) = a
   \<and> ((\<exists>x. a = Some x \<and> x \<noteq> []) \<longrightarrow> mode (setWalletAddress a s) = Wallet)
   \<and> (a = None \<or> a = Some [] \<longrightarrow> mode (setWalletAddress a s) = mode s)
   \<and> demoWallet (setWalletAddress a s) = demoWallet s
   \<and> riskPreference (setWalletAddress a s) = riskPreference s
   \<and> tokenBalances (setWalletAddress a s) = tokenBalances s
   \<and> network (setWalletAddress a s) = network s
   \<and> isLoadingBalances (setWalletAddress a s) = isLoadingBalances s
   \<and> hasHydrated (setWalletAddress a s) = hasHydrated s"
  by (cases a) (auto simp: setWalletAddress_def Let_def)

theorem setWalletAddress_spec_witness:
  "mode initial_state = Demo
   \<and> walletAddress (setWalletAddress (Some ''0xAbC1'') initial_state) = Some ''0xAbC1''
   \<and> mode (setWalletAddress (Some ''0xAbC1'') initial_state) = Wallet
   \<and> mode connected_state = Wallet
   \<and> walletAddress (setWalletAddress None connected_state) = None
   \<and> mode (setWalletAddress None connected_state) = Wallet
   \<and> tokenBalances (setWalletAddress None connected_state) = tokenBalances connected_state"
  using setWalletAddress_spec [of "Some ''0xAbC1''" initial_state]
    setWalletAddress_spec [of None connected_state]
  by (simp add: connected_state_def initial_state_def setWalletAddress_def)

section \<open>Properties of the API client\<close>

text \<open>
  C2, as stated, fails: in wallet mode with the non-null wallet address \<open>''\<close> the request
  carries the placeholder, not the wallet address.
\<close>

theorem getPortfolio_empty_address_counterexample:
  "mode empty_address_state = Wallet \<and> walletAddress empty_address_state = Some []
   \<and> fst (getPortfolio Inr True empty_address_state)
       = [''/api/portfolio?wallet=0x742d35Cc6634C0532925a3b844Bc9e7595f0bEb'']
   \<and> fst (getPortfolio Inr True empty_address_state)
       \<noteq> [''/api/portfolio?wallet='' @ the (walletAddress empty_address_state)]"
  by (simp add: empty_address_state_def getPortfolio_def setMode_def setWalletAddress_def
      initial_state_def DEMO_WALLET_def Let_def)

text \<open>
  C2 (amended): on the client, in demo mode \<open>getPortfolio()\<close> requests exactly
  \<open>/api/portfolio/demo\<close> (no wallet-specific request) and returns what that request
  gives; in wallet mode it requests exactly \<open>/api/portfolio?wallet=<addr>\<close>, where
  \<open><addr>\<close> is \<open>walletAddress\<close> when that is non-null and non-empty, and the
  \<open>demoWallet\<close> placeholder when it is null or the empty string.
\<close>

theorem getPortfolio_spec:
  "(mode s = Demo \<longrightarrow>
      getPortfolio client_get True s = ([''/api/portfolio/demo''], client_get ''/api/portfolio/demo''))
   \<and> (mode s = Wallet \<longrightarrow>
        (\<forall>a. walletAddress s = Some a \<and> a \<noteq> [] \<longrightarrow>
           getPortfolio client_get True s =
             ([''/api/portfolio?wallet='' @ a], client_get (''/api/portfolio?wallet='' @ a)))
      \<and> (walletAddress s = None \<or> walletAddress s = Some [] \<longrightarrow>
           getPortfolio client_get True s =
             ([''/api/portfolio?wallet='' @ demoWallet s],
              client_get (''/api/portfolio?wallet='' @ demoWallet s))))"
  by (auto simp: getPortfolio_def Let_def)

theorem getPortfolio_spec_witness:
  "mode initial_state = Demo
   \<and> fst (getPortfolio Inr True initial_state) = [''/api/portfolio/demo'']
   \<and> mode connected_state = Wallet \<and> walletAddress connected_state = Some ''0xAbC1''
   \<and> fst (getPortfolio Inr True connected_state) = [''/api/portfolio?wallet=0xAbC1'']
   \<and> mode (setMode Wallet initial_state) = Wallet
   \<and> walletAddress (setMode Wallet initial_state) = None
   \<and> fst (getPortfolio Inr True (setMode Wallet initial_state))
       = [''/api/portfolio?wallet=0x742d35Cc6634C0532925a3b844Bc9e7595f0bEb'']"
  using getPortfolio_spec [of initial_state Inr] getPortfolio_spec [of connected_state Inr]
    getPortfolio_spec [of "setMode Wallet initial_state" Inr]
  by (simp add: connected_state_def setWalletAddress_def setMode_def initial_state_def
      DEMO_WALLET_def Let_def)

section \<open>Properties of \<open>normalizeHoldings\<close>\<close>

lemma js_or_first_truthy2: "js_or a (js_or b d) = first_truthy [a, b] d"
  by (simp add: js_or_def first_truthy_def)

lemma js_or_first_truthy_Cons: "js_or a (first_truthy vs d) = first_truthy (a # vs) d"
  by (simp add: js_or_def first_truthy_def)

lemma nullish_or_first2: "nullish_or a (nullish_or b d) = first_non_nullish [a, b] d"
  by (simp add: nullish_or_def first_non_nullish_def)

lemma get_prop_not_nullish: "\<not> nullish h \<Longrightarrow> get_prop h k = Inr (read_prop h k)"
  by (cases h) (simp_all add: nullish_def read_prop_def)

lemma call_toUpperCase_is_Str: "is_Str v \<Longrightarrow> \<exists>s. v = Str s \<and> call_toUpperCase v = Inr (toUpperCase s)"
  by (cases v) simp_all

lemma map_from_total:
  assumes "\<And>h i. h \<in> set hs \<Longrightarrow> \<exists>y. f h i = Inr y"
  shows "\<exists>ys. map_from f k hs = Inr ys \<and> length ys = length hs
           \<and> (\<forall>i<length hs. f (hs ! i) (k + i) = Inr (ys ! i))"
  using assms
proof (induction hs arbitrary: k)
  case Nil
  then show ?case by simp
next
  case (Cons h hs)
  from Cons.prems obtain y where y: "f h k = Inr y"
    by (meson list.set_intros(1))
  from Cons.IH [of "Suc k"] Cons.prems obtain ys where
    ys: "map_from f (Suc k) hs = Inr ys" "length ys = length hs"
        "\<forall>i<length hs. f (hs ! i) (Suc k + i) = Inr (ys ! i)"
    by (meson list.set_intros(2))
  have "\<forall>i<length (h # hs). f ((h # hs) ! i) (k + i) = Inr ((y # ys) ! i)"
  proof (intro allI impI)
    fix i assume "i < length (h # hs)"
    then show "f ((h # hs) ! i) (k + i) = Inr ((y # ys) ! i)"
      using y ys(3) by (cases i) auto
  qed
  then show ?case
    using y ys(1,2) by simp
qed

lemma primitive_converts: "primitive v \<Longrightarrow> converts B v"
  by (cases v) (simp_all add: converts_def)

lemma converts_Inr: "converts B v \<Longrightarrow> \<exists>n. Number B v = Inr n"
  by (cases "Number B v") (simp_all add: converts_def)

lemma normalize_entry_ok:
  assumes "entry_ok B h"
  shows "\<exists>r s. normalize_entry B h i = Inr r
      \<and> first_truthy [read_prop h ''token_symbol'', read_prop h ''symbol''] (Str '''') = Str s
      \<and> token_symbol r = toUpperCase s
      \<and> id_field r = (if read_prop h ''id'' \<noteq> Undefined then read_prop h ''id''
                       else Num (Fin (of_nat i)))
      \<and> protocol_name r =
          first_truthy [read_prop h ''protocol_name'', read_prop h ''protocol'', read_prop h ''provider'']
            (Str ''Unknown'')
      \<and> Number B (first_non_nullish [read_prop h ''amount'', read_prop h ''balance''] (Num (Fin 0)))
          = Inr (amount r)"
proof -
  from assms have nn: "\<not> nullish h"
    and str: "is_Str (first_truthy [read_prop h ''token_symbol'', read_prop h ''symbol''] (Str ''''))"
    and c1: "converts B (first_non_nullish [read_prop h ''amount'', read_prop h ''balance''] (Num (Fin 0)))"
    and c2: "converts B (nullish_or (read_prop h ''apy'') (Num (Fin 0)))"
    and c3: "converts B (nullish_or (read_prop h ''value_usd'') (Num (Fin 0)))"
    by (simp_all add: entry_ok_def)
  from call_toUpperCase_is_Str [OF str] obtain s where
    s: "first_truthy [read_prop h ''token_symbol'', read_prop h ''symbol''] (Str '''') = Str s"
       "call_toUpperCase (first_truthy [read_prop h ''token_symbol'', read_prop h ''symbol''] (Str ''''))
          = Inr (toUpperCase s)"
    by blast
  from converts_Inr [OF c1] obtain n1 where
    n1: "Number B (first_non_nullish [read_prop h ''amount'', read_prop h ''balance''] (Num (Fin 0)))
           = Inr n1"
    by blast
  from converts_Inr [OF c2] obtain n2 where
    n2: "Number B (nullish_or (read_prop h ''apy'') (Num (Fin 0))) = Inr n2"
    by blast
  from converts_Inr [OF c3] obtain n3 where
    n3: "Number B (nullish_or (read_prop h ''value_usd'') (Num (Fin 0))) = Inr n3"
    by blast
  show ?thesis
    unfolding normalize_entry_def js_or_first_truthy2 js_or_first_truthy_Cons nullish_or_first2
    using s n1 n2 n3 by (simp add: get_prop_not_nullish [OF nn] bind_sum_def)
qed

text \<open>
  C3, as stated, fails in three ways. An array with a \<open>null\<close> element is an input list for
  which no list is returned: reading \<open>h.id\<close> throws. So is an array with an element whose
  \<open>amount\<close> is \<open>{valueOf: 1, toString: 1}\<close>: \<open>Number\<close> throws on it. And \<open>||\<close> selects the first
  truthy value, not the first defined one: with \<open>protocol_name: ''\<close> and \<open>protocol: 'Aave'\<close>
  the result's \<open>protocol_name\<close> is \<open>'Aave'\<close>, although \<open>protocol_name\<close> is defined.
\<close>

theorem normalizeHoldings_counterexample:
  "normalizeHoldings plain_builtins (Arr [Null]) = Inl TypeError
   \<and> normalizeHoldings plain_builtins (Arr [Obj [(''amount'', unconvertible)]]) = Inl TypeError
   \<and> read_prop (Obj [(''protocol_name'', Str ''''), (''protocol'', Str ''Aave'')]) ''protocol_name''
       = Str ''''
   \<and> map protocol_name
        (projr (normalizeHoldings plain_builtins
           (Arr [Obj [(''protocol_name'', Str ''''), (''protocol'', Str ''Aave'')]])))
       = [Str ''Aave'']"
  by (simp add: normalize_entry_def bind_sum_def unconvertible_def read_prop_def js_or_def
      nullish_or_def nullish_def toUpperCase_def)

text \<open>
  C3 (amended): for every input array whose elements are neither \<open>undefined\<close> nor \<open>null\<close>,
  select a string (or nothing truthy) as token symbol, and have an \<open>amount ?? balance ?? 0\<close>,
  an \<open>apy ?? 0\<close> and a \<open>value_usd ?? 0\<close> whose conversion to a number returns (as it does for
  every \<open>undefined\<close>, \<open>null\<close>, boolean, number and string), \<open>normalizeHoldings\<close> returns a
  list of the same length whose element at index \<open>i\<close> has: as \<open>protocol_name\<close> the first
  truthy of \<open>protocol_name\<close>, \<open>protocol\<close>, \<open>provider\<close>, and \<open>'Unknown'\<close> when none is truthy;
  as \<open>token_symbol\<close> the upper-cased first truthy of \<open>token_symbol\<close>, \<open>symbol\<close> (the empty
  string when none is); as \<open>amount\<close> \<open>Number(amount ?? balance ?? 0)\<close>; as \<open>id\<close> the element's
  \<open>id\<close> when that is not \<open>undefined\<close> (also when it is 0) and \<open>i\<close> otherwise. For every
  input that is not an array it returns the empty list.
\<close>

theorem normalizeHoldings_spec:
  "(list_all (entry_ok B) hs \<longrightarrow>
      (\<exists>out. normalizeHoldings B (Arr hs) = Inr out \<and> length out = length hs
         \<and> (\<forall>i<length hs.
              (\<exists>s. first_truthy [read_prop (hs ! i) ''token_symbol'', read_prop (hs ! i) ''symbol'']
                      (Str '''') = Str s
                  \<and> token_symbol (out ! i) = toUpperCase s)
            \<and> id_field (out ! i) =
                (if read_prop (hs ! i) ''id'' \<noteq> Undefined then read_prop (hs ! i) ''id''
                 else Num (Fin (of_nat i)))
            \<and> protocol_name (out ! i) =
                first_truthy [read_prop (hs ! i) ''protocol_name'', read_prop (hs ! i) ''protocol'',
                              read_prop (hs ! i) ''provider''] (Str ''Unknown'')
            \<and> Number B (first_non_nullish [read_prop (hs ! i) ''amount'', read_prop (hs ! i) ''balance'']
                          (Num (Fin 0)))
                = Inr (amount (out ! i)))))
   \<and> (primitive x \<longrightarrow> converts B x)
   \<and> ((\<forall>xs. v \<noteq> Arr xs) \<longrightarrow> normalizeHoldings B v = Inr [])"
proof (intro conjI impI)
  assume ok: "list_all (entry_ok B) hs"
  have each: "\<And>h i. h \<in> set hs \<Longrightarrow> \<exists>y. normalize_entry B h i = Inr y"
    using ok normalize_entry_ok by (metis list_all_iff)
  from map_from_total [of hs "normalize_entry B" 0, OF each] obtain out where
    out: "map_from (normalize_entry B) 0 hs = Inr out" "length out = length hs"
         "\<forall>i<length hs. normalize_entry B (hs ! i) (0 + i) = Inr (out ! i)"
    by blast
  have "\<forall>i<length hs.
          (\<exists>s. first_truthy [read_prop (hs ! i) ''token_symbol'', read_prop (hs ! i) ''symbol'']
                  (Str '''') = Str s
              \<and> token_symbol (out ! i) = toUpperCase s)
        \<and> id_field (out ! i) =
            (if read_prop (hs ! i) ''id'' \<noteq> Undefined then read_prop (hs ! i) ''id''
             else Num (Fin (of_nat i)))
        \<and> protocol_name (out ! i) =
            first_truthy [read_prop (hs ! i) ''protocol_name'', read_prop (hs ! i) ''protocol'',
                          read_prop (hs ! i) ''provider''] (Str ''Unknown'')
        \<and> Number B (first_non_nullish [read_prop (hs ! i) ''amount'', read_prop (hs ! i) ''balance'']
                      (Num (Fin 0)))
            = Inr (amount (out ! i))"
  proof (intro allI impI)
    fix i assume i: "i < length hs"
    then have "entry_ok B (hs ! i)"
      using ok by (simp add: list_all_length)
    from normalize_entry_ok [OF this, of i] out(3) i
    show "(\<exists>s. first_truthy [read_prop (hs ! i) ''token_symbol'', read_prop (hs ! i) ''symbol'']
                  (Str '''') = Str s
              \<and> token_symbol (out ! i) = toUpperCase s)
        \<and> id_field (out ! i) =
            (if read_prop (hs ! i) ''id'' \<noteq> Undefined then read_prop (hs ! i) ''id''
             else Num (Fin (of_nat i)))
        \<and> protocol_name (out ! i) =
            first_truthy [read_prop (hs ! i) ''protocol_name'', read_prop (hs ! i) ''protocol'',
                          read_prop (hs ! i) ''provider''] (Str ''Unknown'')
        \<and> Number B (first_non_nullish [read_prop (hs ! i) ''amount'', read_prop (hs ! i) ''balance'']
                      (Num (Fin 0)))
            = Inr (amount (out ! i))"
      by auto
  qed
  with out(1,2)
  show "\<exists>out. normalizeHoldings B (Arr hs) = Inr out \<and> length out = length hs
         \<and> (\<forall>i<length hs.
              (\<exists>s. first_truthy [read_prop (hs ! i) ''token_symbol'', read_prop (hs ! i) ''symbol'']
                      (Str '''') = Str s
                  \<and> token_symbol (out ! i) = toUpperCase s)
            \<and> id_field (out ! i) =
                (if read_prop (hs ! i) ''id'' \<noteq> Undefined then read_prop (hs ! i) ''id''
                 else Num (Fin (of_nat i)))
            \<and> protocol_name (out ! i) =
                first_truthy [read_prop (hs ! i) ''protocol_name'', read_prop (hs ! i) ''protocol'',
                              read_prop (hs ! i) ''provider''] (Str ''Unknown'')
            \<and> Number B (first_non_nullish [read_prop (hs ! i) ''amount'', read_prop (hs ! i) ''balance'']
                          (Num (Fin 0)))
                = Inr (amount (out ! i)))"
    by simp
next
  assume "primitive x"
  then show "converts B x"
    by (rule primitive_converts)
next
  assume "\<forall>xs. v \<noteq> Arr xs"
  then show "normalizeHoldings B v = Inr []"
    by (cases v) simp_all
qed

theorem normalizeHoldings_spec_witness:
  "list_all (entry_ok plain_builtins) sample_holdings
   \<and> (\<exists>out. normalizeHoldings plain_builtins (Arr sample_holdings) = Inr out \<and> length out = 3
         \<and> map token_symbol out = [''USDC'', ''STETH'', '''']
         \<and> map protocol_name out = [Str ''Aave'', Str ''Lido'', Str ''Unknown'']
         \<and> map id_field out = [Num (Fin 0), Num (Fin 1), Num (Fin 2)]
         \<and> map amount out = [Fin 5, Fin (3 / 2), Fin 0])
   \<and> primitive (Str ''12'') \<and> converts plain_builtins (Str ''12'')
   \<and> normalizeHoldings plain_builtins (Str ''not an array'') = Inr []"
proof -
  have ok: "list_all (entry_ok plain_builtins) sample_holdings"
    by (simp add: entry_ok_def sample_holdings_def nullish_def read_prop_def first_truthy_def
        first_non_nullish_def converts_def nullish_or_def)
  have ev: "normalizeHoldings plain_builtins (Arr sample_holdings) =
      Inr [\<lparr>id_field = Num (Fin 0), protocol_name = Str ''Aave'', token_symbol = ''USDC'',
             amount = Fin 5, apy = Fin 0, value_usd = Fin 0, last_updated = Null\<rparr>,
           \<lparr>id_field = Num (Fin 1), protocol_name = Str ''Lido'', token_symbol = ''STETH'',
             amount = Fin (3 / 2), apy = Fin 0, value_usd = Fin 0, last_updated = Null\<rparr>,
           \<lparr>id_field = Num (Fin 2), protocol_name = Str ''Unknown'', token_symbol = '''',
             amount = Fin 0, apy = Fin 0, value_usd = Fin 0, last_updated = Null\<rparr>]"
    by (simp add: sample_holdings_def normalize_entry_def bind_sum_def read_prop_def js_or_def
        nullish_or_def nullish_def toUpperCase_def upper_char_def)
  from normalizeHoldings_spec [of plain_builtins sample_holdings "Str ''12''" "Str ''not an array''"]
  have "normalizeHoldings plain_builtins (Str ''not an array'') = Inr []"
    and "converts plain_builtins (Str ''12'')"
    by simp_all
  with ok ev show ?thesis by simp
qed

section \<open>Properties of the safe formatters\<close>

lemma is_digit_digit_char: "is_digit (digit_char d)"
  unfolding is_digit_def digit_char_def
  by (rule nth_mem) simp

lemma is_digit_not_point: "is_digit c \<Longrightarrow> c \<noteq> CHR ''.''"
  by (auto simp: is_digit_def)

lemma is_digit_not_minus: "is_digit c \<Longrightarrow> c \<noteq> CHR ''-''"
  by (auto simp: is_digit_def)

lemma nat_digits_digits: "list_all is_digit (nat_digits n)"
proof (induction n rule: nat_digits.induct)
  case (1 n)
  show ?case
  proof (cases "n < 10")
    case True
    then show ?thesis
      by (subst nat_digits.simps) (simp add: is_digit_digit_char)
  next
    case False
    with "1" show ?thesis
      by (subst nat_digits.simps) (simp add: is_digit_digit_char)
  qed
qed

lemma nat_digits_nonempty: "nat_digits n \<noteq> []"
  by (subst nat_digits.simps) simp

lemma fixed_body_whole:
  assumes "whole \<noteq> []" "list_all is_digit whole"
  shows "fixed_body 0 whole"
proof -
  have "\<And>c. c \<in> set whole \<Longrightarrow> c \<noteq> CHR ''.''"
    using assms(2) is_digit_not_point by (auto simp: list_all_iff)
  then have tw: "takeWhile (\<lambda>c. c \<noteq> CHR ''.'') whole = whole"
    and dw: "dropWhile (\<lambda>c. c \<noteq> CHR ''.'') whole = []"
    by simp_all
  show ?thesis
    unfolding fixed_body_def Let_def tw dw using assms by simp
qed

lemma fixed_body_point:
  assumes "whole \<noteq> []" "list_all is_digit whole" "list_all is_digit fraction"
  shows "fixed_body (length fraction) (whole @ CHR ''.'' # fraction)"
proof -
  have nd: "\<And>c. c \<in> set whole \<Longrightarrow> c \<noteq> CHR ''.''"
    using assms(2) is_digit_not_point by (auto simp: list_all_iff)
  have tw: "takeWhile (\<lambda>c. c \<noteq> CHR ''.'') (whole @ CHR ''.'' # fraction) = whole"
    using nd by simp
  have dw: "dropWhile (\<lambda>c. c \<noteq> CHR ''.'') (whole @ CHR ''.'' # fraction) = CHR ''.'' # fraction"
    using nd by simp
  show ?thesis
    unfolding fixed_body_def Let_def tw dw using assms by simp
qed

lemma fixed_digits_body: "fixed_body f (fixed_digits x f)"
proof (cases "f = 0")
  case True
  then show ?thesis
    by (simp add: fixed_digits_def fixed_body_whole nat_digits_nonempty nat_digits_digits)
next
  case False
  define m where "m = nat_digits (nearest_scaled x f)"
  define m1 where "m1 = (if length m \<le> f then replicate (f + 1 - length m) CHR ''0'' @ m else m)"
  have dm: "list_all is_digit m" and nm: "m \<noteq> []"
    by (simp_all add: m_def nat_digits_digits nat_digits_nonempty)
  have z: "is_digit CHR ''0''"
    by (simp add: is_digit_def)
  have dm1: "list_all is_digit m1"
    using dm z by (simp add: m1_def list_all_iff)
  have len: "f < length m1"
    by (simp add: m1_def)
  have eq: "fixed_digits x f = take (length m1 - f) m1 @ CHR ''.'' # drop (length m1 - f) m1"
    using False by (simp add: fixed_digits_def m_def m1_def Let_def)
  have w: "take (length m1 - f) m1 \<noteq> []"
    using len by (cases m1) auto
  have dw: "list_all is_digit (take (length m1 - f) m1)"
    using dm1 by (auto simp: list_all_iff dest: in_set_takeD)
  have df: "list_all is_digit (drop (length m1 - f) m1)"
    using dm1 by (auto simp: list_all_iff dest: in_set_dropD)
  have lf: "length (drop (length m1 - f) m1) = f"
    using len by simp
  from fixed_body_point [OF w dw df] show ?thesis
    unfolding eq lf .
qed

lemma fixed_digits_first: "\<exists>c r. fixed_digits x f = c # r \<and> c \<noteq> CHR ''-''"
proof -
  have b: "fixed_body f (fixed_digits x f)" by (rule fixed_digits_body)
  then obtain c r where cr: "fixed_digits x f = c # r"
    by (cases "fixed_digits x f") (auto simp: fixed_body_def)
  with b have "is_digit c"
    by (auto simp: fixed_body_def Let_def split: if_splits)
  with cr show ?thesis
    using is_digit_not_minus by blast
qed

lemma fixed_point_toFixed:
  "fixed_point f ((if q < 0 then ''-'' else '''') @ fixed_digits x f)"
proof -
  obtain c r where cr: "fixed_digits x f = c # r" "c \<noteq> CHR ''-''"
    using fixed_digits_first by blast
  have b: "fixed_body f (fixed_digits x f)" by (rule fixed_digits_body)
  show ?thesis
    using b cr by (auto simp: fixed_point_def)
qed

lemma fixed_point_zeros: "fixed_point d (''0.'' @ replicate d CHR ''0'')"
proof -
  have "fixed_body (length (replicate d CHR ''0'')) (''0'' @ CHR ''.'' # replicate d CHR ''0'')"
    by (rule fixed_body_point) (simp_all add: is_digit_def list_all_iff)
  then show ?thesis
    by (simp add: fixed_point_def)
qed

lemma repeat_zero:
  "d \<le> max_string_length B \<Longrightarrow> repeat B ''0'' d = Inr (replicate d CHR ''0'')"
proof -
  have "concat (replicate d ''0'') = replicate d CHR ''0''"
    by (induction d) simp_all
  then show "d \<le> max_string_length B \<Longrightarrow> repeat B ''0'' d = Inr (replicate d CHR ''0'')"
    by (simp add: repeat_def)
qed

lemma safeToFixed_NaN:
  assumes "Number B (nullish_or v (Num (Fin 0))) = Inr NaN" "d + 2 \<le> max_string_length B"
  shows "safeToFixed B v d = Inr (''0.'' @ replicate d CHR ''0'')"
  using assms by (simp add: safeToFixed_def bind_sum_def isNaN_def repeat_zero js_concat_def)

lemma safePercent_NaN:
  assumes "Number B (nullish_or v (Num (Fin 0))) = Inr NaN" "d + 3 \<le> max_string_length B"
  shows "safePercent B v d = Inr (''0.'' @ replicate d CHR ''0'' @ ''%'')"
  using assms by (simp add: safePercent_def bind_sum_def isNaN_def repeat_zero js_concat_def)

lemma toFixed_total: "d \<le> 100 \<Longrightarrow> \<exists>s. toFixed B n d = Inr s"
  by (cases n) simp_all

lemma safeToFixed_finite:
  assumes "Number B (nullish_or v (Num (Fin 0))) = Inr (Fin q)" "\<bar>q\<bar> < 10 ^ 21" "d \<le> 100"
  shows "\<exists>s. safeToFixed B v d = Inr s \<and> fixed_point d s"
  using assms fixed_point_toFixed [of d q "\<bar>q\<bar>"]
  by (simp add: safeToFixed_def bind_sum_def isNaN_def)

text \<open>
  C10, as stated, fails: \<open>safeCurrency\<close> (like the other two) throws a TypeError for a
  symbol and for \<open>{valueOf: 1, toString: 1}\<close>, whose conversion to a number throws;
  \<open>safeToFixed(1, 101)\<close> and \<open>safePercent(1, 101)\<close> throw the RangeError of \<open>toFixed\<close>;
  \<open>safeToFixed(Infinity, 2)\<close> is \<open>'Infinity'\<close>, which has no fraction digits; and in an
  engine whose strings have at most \<open>2^29 - 24\<close> characters \<open>safeToFixed('abc', 2^29 - 23)\<close>
  throws the RangeError of \<open>repeat\<close>.
\<close>

theorem safe_formatters_counterexample:
  "safeCurrency plain_builtins unconvertible = Inl TypeError
   \<and> safeCurrency plain_builtins (Symbol ''s'') = Inl TypeError
   \<and> safeToFixed plain_builtins (Num (Fin 1)) 101 = Inl RangeError
   \<and> safePercent plain_builtins (Num (Fin 1)) 101 = Inl RangeError
   \<and> safeToFixed plain_builtins (Num PosInfinity) 2 = Inr ''Infinity''
   \<and> \<not> fixed_point 2 ''Infinity''
   \<and> safeToFixed plain_builtins (Str ''abc'') 536870889 = Inl RangeError"
proof -
  have a: "safeCurrency plain_builtins unconvertible = Inl TypeError"
    "safeCurrency plain_builtins (Symbol ''s'') = Inl TypeError"
    by (simp_all add: safeCurrency_def unconvertible_def bind_sum_def nullish_or_def nullish_def)
  have b: "safeToFixed plain_builtins (Num (Fin 1)) 101 = Inl RangeError"
    "safePercent plain_builtins (Num (Fin 1)) 101 = Inl RangeError"
    "safeToFixed plain_builtins (Num PosInfinity) 2 = Inr ''Infinity''"
    by (simp_all add: safeToFixed_def safePercent_def bind_sum_def nullish_or_def nullish_def
        isNaN_def)
  have c: "\<not> fixed_point 2 ''Infinity''"
    by code_simp
  have d: "safeToFixed plain_builtins (Str ''abc'') 536870889 = Inl RangeError"
    by (simp add: safeToFixed_def plain_builtins_def bind_sum_def nullish_or_def nullish_def
        isNaN_def repeat_def is_digit_def)
  from a b c d show ?thesis by simp
qed

text \<open>
  C10 (amended): for every value \<open>v\<close> whose conversion \<open>Number(v ?? 0)\<close> returns (as it does
  for every \<open>undefined\<close>, \<open>null\<close>, boolean, number and string) and every natural number \<open>d\<close>:
  \<^item> when \<open>Number(v ?? 0)\<close> is NaN, \<open>safeCurrency(v)\<close> returns \<open>'$0.00'\<close>, \<open>safeToFixed(v, d)\<close>
  returns \<open>'0.'\<close> followed by \<open>d\<close> zeros and \<open>safePercent(v, d)\<close> returns \<open>'0.'\<close> followed by
  \<open>d\<close> zeros and \<open>'%'\<close>, as long as the result is no longer than the engine's strings can
  be;
  \<^item> \<open>safeCurrency(v)\<close> never throws;
  \<^item> when \<open>Number(v ?? 0)\<close> is not NaN and \<open>d \<le> 100\<close>, \<open>safeToFixed(v, d)\<close> does not throw and
  is \<open>toFixed\<close>'s text, and \<open>safePercent(v, d)\<close> is that text followed by \<open>'%'\<close> (a string
  the engine can make);
  \<^item> when \<open>d \<le> 100\<close> and \<open>Number(v ?? 0)\<close> is NaN or a finite number of magnitude below
  \<open>10^21\<close>, the text \<open>safeToFixed(v, d)\<close> returns is a decimal string with exactly \<open>d\<close>
  fraction digits.
\<close>

theorem safe_formatters_spec:
  "(primitive v \<longrightarrow> converts B (nullish_or v (Num (Fin 0))))
   \<and> (Number B (nullish_or v (Num (Fin 0))) = Inr NaN \<longrightarrow>
        safeCurrency B v = Inr ''$0.00''
      \<and> fixed_point d (''0.'' @ replicate d CHR ''0'')
      \<and> (d + 2 \<le> max_string_length B \<longrightarrow>
           safeToFixed B v d = Inr (''0.'' @ replicate d CHR ''0''))
      \<and> (d + 3 \<le> max_string_length B \<longrightarrow>
           safePercent B v d = Inr (''0.'' @ replicate d CHR ''0'' @ ''%'')))
   \<and> (converts B (nullish_or v (Num (Fin 0))) \<longrightarrow> (\<exists>s. safeCurrency B v = Inr s))
   \<and> (Number B (nullish_or v (Num (Fin 0))) = Inr n \<and> n \<noteq> NaN \<and> d \<le> 100 \<longrightarrow>
        (\<exists>s. toFixed B n d = Inr s \<and> safeToFixed B v d = Inr s
           \<and> (length s < max_string_length B \<longrightarrow> safePercent B v d = Inr (s @ ''%''))))
   \<and> (d \<le> 100 \<and> Number B (nullish_or v (Num (Fin 0))) = Inr (Fin q) \<and> \<bar>q\<bar> < 10 ^ 21 \<longrightarrow>
        (\<exists>s. safeToFixed B v d = Inr s \<and> fixed_point d s))"
proof (intro conjI impI)
  assume "primitive v"
  then have "primitive (nullish_or v (Num (Fin 0)))"
    by (simp add: nullish_or_def)
  then show "converts B (nullish_or v (Num (Fin 0)))"
    by (rule primitive_converts)
next
  assume n: "Number B (nullish_or v (Num (Fin 0))) = Inr NaN"
  show "safeCurrency B v = Inr ''$0.00''"
    using n by (simp add: safeCurrency_def bind_sum_def isNaN_def)
  show "fixed_point d (''0.'' @ replicate d CHR ''0'')"
    by (rule fixed_point_zeros)
  {
    assume "d + 2 \<le> max_string_length B"
    with n show "safeToFixed B v d = Inr (''0.'' @ replicate d CHR ''0'')"
      by (rule safeToFixed_NaN)
  next
    assume "d + 3 \<le> max_string_length B"
    with n show "safePercent B v d = Inr (''0.'' @ replicate d CHR ''0'' @ ''%'')"
      by (rule safePercent_NaN)
  }
next
  assume "converts B (nullish_or v (Num (Fin 0)))"
  from converts_Inr [OF this] show "\<exists>s. safeCurrency B v = Inr s"
    by (auto simp: safeCurrency_def bind_sum_def)
next
  assume a: "Number B (nullish_or v (Num (Fin 0))) = Inr n \<and> n \<noteq> NaN \<and> d \<le> 100"
  then obtain s where s: "toFixed B n d = Inr s"
    using toFixed_total by blast
  have "safeToFixed B v d = Inr s"
    using a s by (simp add: safeToFixed_def bind_sum_def isNaN_def del: toFixed.simps)
  moreover have "length s < max_string_length B \<longrightarrow> safePercent B v d = Inr (s @ ''%'')"
    using a s by (simp add: safePercent_def bind_sum_def isNaN_def js_concat_def del: toFixed.simps)
  ultimately show "\<exists>s. toFixed B n d = Inr s \<and> safeToFixed B v d = Inr s
           \<and> (length s < max_string_length B \<longrightarrow> safePercent B v d = Inr (s @ ''%''))"
    using s by blast
next
  assume "d \<le> 100 \<and> Number B (nullish_or v (Num (Fin 0))) = Inr (Fin q) \<and> \<bar>q\<bar> < 10 ^ 21"
  then show "\<exists>s. safeToFixed B v d = Inr s \<and> fixed_point d s"
    using safeToFixed_finite by blast
qed

theorem safe_formatters_spec_witness:
  "Number plain_builtins (nullish_or (Str ''abc'') (Num (Fin 0))) = Inr NaN
   \<and> safeToFixed plain_builtins (Str ''abc'') 3 = Inr ''0.000''
   \<and> safeCurrency plain_builtins (Str ''abc'') = Inr ''$0.00''
   \<and> safePercent plain_builtins (Str ''abc'') 2 = Inr ''0.00%''
   \<and> primitive Undefined \<and> converts plain_builtins (nullish_or Undefined (Num (Fin 0)))
   \<and> safeCurrency plain_builtins Undefined = Inr ''$0.00''
   \<and> Number plain_builtins (nullish_or (Num (Fin (3 / 2))) (Num (Fin 0))) = Inr (Fin (3 / 2))
   \<and> safeToFixed plain_builtins (Num (Fin (3 / 2))) 2 = Inr ''1.50''
   \<and> safePercent plain_builtins (Num (Fin (3 / 2))) 2 = Inr ''1.50%''
   \<and> fixed_point 2 ''1.50''"
proof -
  have m: "max_string_length plain_builtins = 536870888"
    by (simp add: plain_builtins_def)
  have n: "Number plain_builtins (nullish_or (Str ''abc'') (Num (Fin 0))) = Inr NaN"
    by (simp add: plain_builtins_def nullish_or_def nullish_def is_digit_def)
  have f: "Number plain_builtins (nullish_or (Num (Fin (3 / 2))) (Num (Fin 0))) = Inr (Fin (3 / 2))"
    by (simp add: nullish_or_def nullish_def)
  have "fixed_digits (3 / 2) 2 = ''1.50''"
    by code_simp
  then have t: "toFixed plain_builtins (Fin (3 / 2)) 2 = Inr ''1.50''"
    by simp
  have u: "safeCurrency plain_builtins Undefined = Inr ''$0.00''"
    by (simp add: safeCurrency_def plain_builtins_def bind_sum_def nullish_or_def nullish_def isNaN_def)
  from safe_formatters_spec [of "Str ''abc''" plain_builtins 3] n m
  have a: "safeToFixed plain_builtins (Str ''abc'') 3 = Inr ''0.000''"
    "safeCurrency plain_builtins (Str ''abc'') = Inr ''$0.00''"
    by (simp_all add: numeral_3_eq_3)
  from safe_formatters_spec [of "Str ''abc''" plain_builtins 2] n m
  have b: "safePercent plain_builtins (Str ''abc'') 2 = Inr ''0.00%''"
    by (simp add: numeral_2_eq_2)
  from safe_formatters_spec [of Undefined plain_builtins 2]
  have p: "converts plain_builtins (nullish_or Undefined (Num (Fin 0)))"
    by simp
  from safe_formatters_spec [of "Num (Fin (3 / 2))" plain_builtins 2 "Fin (3 / 2)" "3 / 2"] f t m
  have c: "safeToFixed plain_builtins (Num (Fin (3 / 2))) 2 = Inr ''1.50''"
    "safePercent plain_builtins (Num (Fin (3 / 2))) 2 = Inr ''1.50%''"
    "fixed_point 2 ''1.50''"
    by auto
  from n f u a b p c show ?thesis by simp
qed

section \<open>Properties of \<open>getTokenBalances\<close>\<close>

lemma fetch_token_outcome:
  "snd (fetch_token p address (symbol, c)) = Inr (symbol, token_balance p address c)"
  by (simp add: fetch_token_def token_balance_def try_catch_def bind_rpc_def promise_both_def
      request_def lift_def ret_def split: sum.splits)

lemma fetch_token_requests: "list_all read_only (fst (fetch_token p address entry))"
  by (simp add: fetch_token_def try_catch_def bind_rpc_def promise_both_def
      request_def lift_def ret_def Let_def split: sum.splits)

lemma fetch_eth_outcome: "snd (fetch_eth p address) = Inr (eth_balance p address)"
  by (simp add: fetch_eth_def eth_balance_def try_catch_def bind_rpc_def request_def lift_def
      ret_def split: sum.splits)

lemma fetch_eth_requests: "fst (fetch_eth p address) = [Eth_getBalance address]"
  by (simp add: fetch_eth_def try_catch_def bind_rpc_def request_def lift_def ret_def
      split: sum.splits)

lemma all_values_tokens:
  "all_values (map snd (map (fetch_token p address) tokens))
     = Inr (map (\<lambda>e. (fst e, token_balance p address (snd e))) tokens)"
proof (induction tokens)
  case Nil
  then show ?case by simp
next
  case (Cons e tokens)
  obtain s c where e: "e = (s, c)" by (cases e)
  show ?case
    using Cons.IH by (simp add: e fetch_token_outcome)
qed

lemma promise_all_tokens_outcome:
  "snd (promise_all (map (fetch_token p address) tokens))
     = Inr (map (\<lambda>e. (fst e, token_balance p address (snd e))) tokens)"
  unfolding promise_all_def snd_conv by (rule all_values_tokens)

lemma promise_all_tokens_requests:
  "list_all read_only (fst (promise_all (map (fetch_token p address) tokens)))"
  using fetch_token_requests by (induction tokens) (simp_all add: promise_all_def)

lemma map_of_add_results:
  "map_of (add_results b rs) k =
     (case map_of (rev rs) k of None \<Rightarrow> map_of b k | Some v \<Rightarrow> Some v)"
proof (induction rs arbitrary: b)
  case Nil
  then show ?case by (simp add: add_results_def)
next
  case (Cons r rs)
  have "add_results b (r # rs) = add_results (AList.update (fst r) (snd r) b) rs"
    by (simp add: add_results_def)
  then show ?case
    using Cons.IH [of "AList.update (fst r) (snd r) b"]
    by (cases r) (auto simp: update_conv' map_add_def split: option.splits)
qed

lemma map_of_rev_distinct: "distinct (map fst xs) \<Longrightarrow> map_of (rev xs) = map_of xs"
  by (rule map_of_inject_set [THEN iffD2]) (simp_all add: rev_map [symmetric])

lemma token_balance_failed:
  "newContract p c = Inl e \<or> balanceOf p c address = Inl e \<or> decimals p c = Inl e
   \<Longrightarrow> token_balance p address c = Fin 0"
  by (auto simp: token_balance_def split: sum.splits)

lemma getTokenBalances_connected:
  assumes "newBrowserProvider p = Inr u"
  shows "snd (getTokenBalances (Some p) address tokens) =
           Inr (add_results [(''ETH'', eth_balance p address)]
                  (map (\<lambda>e. (fst e, token_balance p address (snd e))) tokens))"
  using assms fetch_eth_outcome [of p address] promise_all_tokens_outcome [of p address tokens]
  by (simp add: getTokenBalances_def try_catch_def bind_rpc_def lift_def ret_def)

lemma getTokenBalances_requests:
  "list_all read_only (fst (getTokenBalances w address tokens))"
proof (cases w)
  case None
  then show ?thesis
    by (simp add: getTokenBalances_def try_catch_def ret_def)
next
  case (Some p)
  have t: "list_all read_only (fst (promise_all (map (fetch_token p address) tokens)))"
    by (rule promise_all_tokens_requests)
  have eth: "snd (fetch_eth p address) = Inr (eth_balance p address)"
    by (rule fetch_eth_outcome)
  show ?thesis
  proof (cases "newBrowserProvider p")
    case (Inl e)
    then show ?thesis
      by (simp add: Some getTokenBalances_def try_catch_def bind_rpc_def lift_def ret_def)
  next
    case (Inr u)
    then show ?thesis
      using t eth promise_all_tokens_outcome [of p address tokens]
      by (simp add: Some getTokenBalances_def try_catch_def bind_rpc_def lift_def ret_def
          fetch_eth_requests)
  qed
qed

text \<open>
  C6: \<open>getTokenBalances\<close> sends only read requests and never throws. Without a provider
  (\<open>window.ethereum\<close> missing) it returns the empty balance map and sends nothing. With a
  provider, \<open>ETH\<close> and every token of \<open>tokens\<close> are in the result with their formatted
  balances, and with 0 when the lookup throws (\<open>getBalance\<close> for \<open>ETH\<close>; the contract, its
  \<open>balanceOf\<close> or its \<open>decimals\<close> for a token), whatever the other lookups do. When the
  provider itself cannot be constructed the result is the empty balance map. (\<open>tokens\<close> is
  an object: its keys are distinct.)
\<close>

theorem getTokenBalances_spec:
  "(\<exists>b. snd (getTokenBalances w address tokens) = Inr b)
   \<and> list_all read_only (fst (getTokenBalances w address tokens))
   \<and> (w = None \<longrightarrow> getTokenBalances w address tokens = ([], Inr []))
   \<and> (w = Some p \<and> newBrowserProvider p = Inr () \<and> distinct (map fst tokens) \<longrightarrow>
        (\<exists>b. snd (getTokenBalances w address tokens) = Inr b
           \<and> map_of b ''ETH'' \<noteq> None
           \<and> (''ETH'' \<notin> fst ` set tokens \<longrightarrow>
                  map_of b ''ETH'' = Some (eth_balance p address)
                  \<and> ((\<exists>e. getBalance p address = Inl e) \<longrightarrow> map_of b ''ETH'' = Some (Fin 0)))
           \<and> (\<forall>symbol c. (symbol, c) \<in> set tokens \<longrightarrow>
                  map_of b symbol = Some (token_balance p address c)
                  \<and> ((\<exists>e. newContract p c = Inl e \<or> balanceOf p c address = Inl e
                             \<or> decimals p c = Inl e) \<longrightarrow>
                       map_of b symbol = Some (Fin 0)))))
   \<and> (w = Some p \<and> newBrowserProvider p = Inl err \<longrightarrow>
        snd (getTokenBalances w address tokens) = Inr [])"
proof (intro conjI impI)
  show "\<exists>b. snd (getTokenBalances w address tokens) = Inr b"
  proof (cases w)
    case None
    then show ?thesis
      by (simp add: getTokenBalances_def try_catch_def ret_def)
  next
    case (Some q)
    show ?thesis
    proof (cases "newBrowserProvider q")
      case (Inl e)
      then show ?thesis
        by (simp add: Some getTokenBalances_def try_catch_def bind_rpc_def lift_def ret_def)
    next
      case (Inr u)
      from getTokenBalances_connected [OF this] show ?thesis
        unfolding Some by simp
    qed
  qed
next
  show "list_all read_only (fst (getTokenBalances w address tokens))"
    by (rule getTokenBalances_requests)
next
  assume "w = None"
  then show "getTokenBalances w address tokens = ([], Inr [])"
    by (simp add: getTokenBalances_def try_catch_def ret_def)
next
  assume a: "w = Some p \<and> newBrowserProvider p = Inr () \<and> distinct (map fst tokens)"
  let ?rs = "map (\<lambda>e. (fst e, token_balance p address (snd e))) tokens"
  define eth where "eth = eth_balance p address"
  from a getTokenBalances_connected [of p "()" address tokens]
  have r: "snd (getTokenBalances w address tokens) = Inr (add_results [(''ETH'', eth)] ?rs)"
    by (simp add: eth_def)
  have d: "distinct (map fst ?rs)"
    using a by (simp add: comp_def)
  have look: "\<And>k. map_of (add_results [(''ETH'', eth)] ?rs) k =
      (case map_of ?rs k of None \<Rightarrow> map_of [(''ETH'', eth)] k | Some v \<Rightarrow> Some v)"
    by (simp only: map_of_add_results map_of_rev_distinct [OF d])
  have eth: "map_of (add_results [(''ETH'', eth)] ?rs) ''ETH'' \<noteq> None"
    by (simp add: look split: option.splits)
  have tok: "\<And>symbol c. (symbol, c) \<in> set tokens \<Longrightarrow>
      map_of (add_results [(''ETH'', eth)] ?rs) symbol = Some (token_balance p address c)"
  proof -
    fix symbol c assume m: "(symbol, c) \<in> set tokens"
    then have "(symbol, token_balance p address c) \<in> set ?rs"
      by force
    with d have "map_of ?rs symbol = Some (token_balance p address c)"
      by (rule map_of_is_SomeI)
    then show "map_of (add_results [(''ETH'', eth)] ?rs) symbol = Some (token_balance p address c)"
      by (simp add: look)
  qed
  have ethv: "''ETH'' \<notin> fst ` set tokens \<Longrightarrow>
      map_of (add_results [(''ETH'', eth)] ?rs) ''ETH'' = Some (eth_balance p address)"
  proof -
    assume "''ETH'' \<notin> fst ` set tokens"
    then have "''ETH'' \<notin> fst ` set ?rs"
      by force
    then have "map_of ?rs ''ETH'' = None"
      by (simp add: map_of_eq_None_iff)
    then have "map_of (add_results [(''ETH'', eth)] ?rs) ''ETH'' = Some eth"
      by (simp add: look)
    then show ?thesis
      by (simp add: eth_def)
  qed
  have ethf: "\<And>e. getBalance p address = Inl e \<Longrightarrow> eth_balance p address = Fin 0"
    by (simp add: eth_balance_def)
  show "\<exists>b. snd (getTokenBalances w address tokens) = Inr b
           \<and> map_of b ''ETH'' \<noteq> None
           \<and> (''ETH'' \<notin> fst ` set tokens \<longrightarrow>
                  map_of b ''ETH'' = Some (eth_balance p address)
                  \<and> ((\<exists>e. getBalance p address = Inl e) \<longrightarrow> map_of b ''ETH'' = Some (Fin 0)))
           \<and> (\<forall>symbol c. (symbol, c) \<in> set tokens \<longrightarrow>
                  map_of b symbol = Some (token_balance p address c)
                  \<and> ((\<exists>e. newContract p c = Inl e \<or> balanceOf p c address = Inl e
                             \<or> decimals p c = Inl e) \<longrightarrow>
                       map_of b symbol = Some (Fin 0)))"
  proof (intro exI [of _ "add_results [(''ETH'', eth)] ?rs"] conjI allI impI)
    show "snd (getTokenBalances w address tokens) = Inr (add_results [(''ETH'', eth)] ?rs)"
      by (rule r)
    show "map_of (add_results [(''ETH'', eth)] ?rs) ''ETH'' \<noteq> None"
      by (rule eth)
  next
    assume "''ETH'' \<notin> fst ` set tokens"
    then show "map_of (add_results [(''ETH'', eth)] ?rs) ''ETH'' = Some (eth_balance p address)"
      by (rule ethv)
  next
    assume n: "''ETH'' \<notin> fst ` set tokens" and "\<exists>e. getBalance p address = Inl e"
    then have "eth_balance p address = Fin 0"
      using ethf by blast
    with ethv [OF n] show "map_of (add_results [(''ETH'', eth)] ?rs) ''ETH'' = Some (Fin 0)"
      by simp
  next
    fix symbol c assume "(symbol, c) \<in> set tokens"
    then show "map_of (add_results [(''ETH'', eth)] ?rs) symbol = Some (token_balance p address c)"
      by (rule tok)
  next
    fix symbol c
    assume m: "(symbol, c) \<in> set tokens"
      and f: "\<exists>e. newContract p c = Inl e \<or> balanceOf p c address = Inl e \<or> decimals p c = Inl e"
    from f have "token_balance p address c = Fin 0"
      using token_balance_failed by blast
    with tok [OF m]
    show "map_of (add_results [(''ETH'', eth)] ?rs) symbol = Some (Fin 0)"
      by simp
  qed
next
  assume "w = Some p \<and> newBrowserProvider p = Inl err"
  then show "snd (getTokenBalances w address tokens) = Inr []"
    by (simp add: getTokenBalances_def try_catch_def bind_rpc_def lift_def ret_def)
qed

theorem getTokenBalances_spec_witness:
  "newBrowserProvider sample_provider = Inr () \<and> distinct (map fst MAINNET_TOKENS)
   \<and> balanceOf sample_provider ''0x6B175474E89094C44Da98b954EedeAC495271d0F'' ''0xAbC1''
       = Inl (Rejected ''call revert'')
   \<and> snd (getTokenBalances (Some sample_provider) ''0xAbC1'' MAINNET_TOKENS)
       = Inr [(''ETH'', Fin 2), (''USDC'', Fin 5), (''DAI'', Fin 0), (''WETH'', Fin 5),
              (''USDT'', Fin 5), (''AAVE'', Fin 5)]
   \<and> list_all read_only (fst (getTokenBalances (Some sample_provider) ''0xAbC1'' MAINNET_TOKENS))
   \<and> getTokenBalances None ''0xAbC1'' MAINNET_TOKENS = ([], Inr [])
   \<and> snd (getTokenBalances (Some (sample_provider\<lparr>newBrowserProvider := Inl TypeError\<rparr>))
          ''0xAbC1'' MAINNET_TOKENS) = Inr []"
proof -
  have ev: "newBrowserProvider sample_provider = Inr ()" "distinct (map fst MAINNET_TOKENS)"
    "balanceOf sample_provider ''0x6B175474E89094C44Da98b954EedeAC495271d0F'' ''0xAbC1''
       = Inl (Rejected ''call revert'')"
    "snd (getTokenBalances (Some sample_provider) ''0xAbC1'' MAINNET_TOKENS)
       = Inr [(''ETH'', Fin 2), (''USDC'', Fin 5), (''DAI'', Fin 0), (''WETH'', Fin 5),
              (''USDT'', Fin 5), (''AAVE'', Fin 5)]"
    by code_simp+
  have f: "newBrowserProvider (sample_provider\<lparr>newBrowserProvider := Inl TypeError\<rparr>) = Inl TypeError"
    by simp
  from getTokenBalances_spec [of "Some sample_provider" "''0xAbC1''" MAINNET_TOKENS]
  have a: "list_all read_only (fst (getTokenBalances (Some sample_provider) ''0xAbC1'' MAINNET_TOKENS))"
    by blast
  from getTokenBalances_spec [of None "''0xAbC1''" MAINNET_TOKENS]
  have b: "getTokenBalances None ''0xAbC1'' MAINNET_TOKENS = ([], Inr [])"
    by blast
  from getTokenBalances_spec
    [of "Some (sample_provider\<lparr>newBrowserProvider := Inl TypeError\<rparr>)" "''0xAbC1''" MAINNET_TOKENS
        "sample_provider\<lparr>newBrowserProvider := Inl TypeError\<rparr>" TypeError] f
  have c: "snd (getTokenBalances (Some (sample_provider\<lparr>newBrowserProvider := Inl TypeError\<rparr>))
          ''0xAbC1'' MAINNET_TOKENS) = Inr []"
    by blast
  from ev a b c show ?thesis by simp
qed

section \<open>Properties of the balance cache\<close>

lemma to_json_balances:
  "list_all (\<lambda>e. finite_num (snd e)) b \<Longrightarrow> to_json (balances_val b) = balances_val b"
proof -
  assume fin: "list_all (\<lambda>e. finite_num (snd e)) b"
  have keep: "filter (\<lambda>p. snd p \<noteq> Undefined \<and> \<not> is_Symbol (snd p))
                  (map (\<lambda>e. (fst e, Num (snd e))) b)
                = map (\<lambda>e. (fst e, Num (snd e))) b"
    by (induction b) simp_all
  have each: "map (\<lambda>p. (fst p, to_json (snd p))) (map (\<lambda>e. (fst e, Num (snd e))) b)
                = map (\<lambda>e. (fst e, Num (snd e))) b"
    using fin
  proof (induction b)
    case Nil
    then show ?case by simp
  next
    case (Cons e b)
    then obtain q where "snd e = Fin q"
      by (cases "snd e") simp_all
    with Cons show ?case by simp
  qed
  show ?thesis
    unfolding balances_val_def to_json.simps keep each ..
qed

lemma cacheBalances_written:
  assumes "\<not> quota_exceeded st"
  shows "cacheBalances (Some st) t0 a b =
           Some (st\<lparr>items := (items st)(BALANCE_CACHE_KEY \<mapsto>
             Json (Obj [(''address'', Str a), (''balances'', to_json (balances_val b)),
                        (''timestamp'', Num (Fin (of_int t0)))]))\<rparr>)"
  using assms by (simp add: cacheBalances_def balances_val_def)

lemma getCachedBalances_entry:
  assumes "items st BALANCE_CACHE_KEY =
             Some (Json (Obj [(''address'', Str a), (''balances'', v),
                              (''timestamp'', Num (Fin (of_int t0)))]))"
  shows "getCachedBalances B (Some st) t1 a2 =
           Inr (if toLowerCase a = toLowerCase a2 \<and> t1 - t0 < 300000 then v else Null)"
proof -
  have lt: "(rat_of_int t1 - rat_of_int t0 < 300000) = (t1 - t0 < 300000)"
  proof -
    have "rat_of_int t1 - rat_of_int t0 = rat_of_int (t1 - t0)" by simp
    moreover have "(rat_of_int (t1 - t0) < rat_of_int 300000) = (t1 - t0 < 300000)"
      by (rule of_int_less_iff)
    ultimately show ?thesis by simp
  qed
  show ?thesis
    using assms
    by (simp add: getCachedBalances_def try_sum_def bind_sum_def read_prop_def CACHE_DURATION_def lt)
qed

lemma getCachedBalances_total: "\<exists>v. getCachedBalances B ls t1 a2 = Inr v"
  by (cases "getItem ls BALANCE_CACHE_KEY") (auto simp: getCachedBalances_def try_sum_def bind_sum_def split: sum.splits option.splits)

text \<open>
  C8, as stated, fails in two ways. A balance that is \<open>NaN\<close> comes back as \<open>null\<close>, because
  \<open>JSON.stringify\<close> writes \<open>null\<close> for it. And when \<open>setItem\<close> throws, \<open>cacheBalances\<close>
  catches the throw and stores nothing, so a read for the same address a second later
  returns \<open>null\<close>.
\<close>

theorem balance_cache_counterexample:
  "getCachedBalances plain_builtins
      (cacheBalances empty_storage 1000 ''0xAbC1'' [(''ETH'', NaN)]) 2000 ''0xAbC1''
     = Inr (Obj [(''ETH'', Null)])
   \<and> balances_val [(''ETH'', NaN)] \<noteq> Obj [(''ETH'', Null)]
   \<and> getCachedBalances plain_builtins
        (cacheBalances full_storage 1000 ''0xAbC1'' [(''ETH'', Fin 2)]) 2000 ''0xAbC1''
       = Inr Null
   \<and> balances_val [(''ETH'', Fin 2)] \<noteq> Null"
  by (simp add: getCachedBalances_def cacheBalances_def empty_storage_def full_storage_def
      balances_val_def try_sum_def bind_sum_def read_prop_def BALANCE_CACHE_KEY_def
      CACHE_DURATION_def)

text \<open>
  C8 (amended): when the write succeeds (\<open>localStorage\<close> exists and \<open>setItem\<close> does not
  throw), then after \<open>cacheBalances(a, b)\<close> at time \<open>t0\<close>, \<open>getCachedBalances(a2)\<close> at time
  \<open>t1\<close> returns exactly \<open>b\<close> whenever \<open>a2\<close> equals \<open>a\<close> up to letter case (their lower-cased
  forms are equal), fewer than 300000 ms have elapsed and every balance of \<open>b\<close> is a finite
  number; it returns \<open>null\<close> whenever the addresses differ case-insensitively or at least
  300000 ms have elapsed. Whatever the storage holds, \<open>getCachedBalances\<close> does not throw,
  and it returns \<open>null\<close> when the cache entry is absent or unparsable.
\<close>

theorem balance_cache_roundtrip:
  "(ls = Some st \<and> \<not> quota_exceeded st \<longrightarrow>
      (toLowerCase a2 = toLowerCase a \<and> t1 - t0 < 300000
         \<and> list_all (\<lambda>e. finite_num (snd e)) b \<longrightarrow>
         getCachedBalances B (cacheBalances ls t0 a b) t1 a2 = Inr (balances_val b))
    \<and> (toLowerCase a2 \<noteq> toLowerCase a \<or> t1 - t0 \<ge> 300000 \<longrightarrow>
         getCachedBalances B (cacheBalances ls t0 a b) t1 a2 = Inr Null))
   \<and> (getItem ls BALANCE_CACHE_KEY = Inr None \<longrightarrow> getCachedBalances B ls t1 a2 = Inr Null)
   \<and> (getItem ls BALANCE_CACHE_KEY = Inr (Some (Unparsable s)) \<longrightarrow>
        getCachedBalances B ls t1 a2 = Inr Null)
   \<and> (\<exists>v. getCachedBalances B ls t1 a2 = Inr v)"
proof (intro conjI impI)
  assume w: "ls = Some st \<and> \<not> quota_exceeded st"
  let ?st' = "st\<lparr>items := (items st)(BALANCE_CACHE_KEY \<mapsto>
             Json (Obj [(''address'', Str a), (''balances'', to_json (balances_val b)),
                        (''timestamp'', Num (Fin (of_int t0)))]))\<rparr>"
  have c: "cacheBalances ls t0 a b = Some ?st'"
    using w cacheBalances_written by simp
  have r: "getCachedBalances B (Some ?st') t1 a2 =
      Inr (if toLowerCase a = toLowerCase a2 \<and> t1 - t0 < 300000
           then to_json (balances_val b) else Null)"
    by (rule getCachedBalances_entry) simp
  {
    assume "toLowerCase a2 = toLowerCase a \<and> t1 - t0 < 300000
         \<and> list_all (\<lambda>e. finite_num (snd e)) b"
    then show "getCachedBalances B (cacheBalances ls t0 a b) t1 a2 = Inr (balances_val b)"
      using c r to_json_balances by simp
  next
    assume "toLowerCase a2 \<noteq> toLowerCase a \<or> t1 - t0 \<ge> 300000"
    then show "getCachedBalances B (cacheBalances ls t0 a b) t1 a2 = Inr Null"
      using c r by auto
  }
next
  assume "getItem ls BALANCE_CACHE_KEY = Inr None"
  then show "getCachedBalances B ls t1 a2 = Inr Null"
    by (simp add: getCachedBalances_def try_sum_def bind_sum_def)
next
  assume "getItem ls BALANCE_CACHE_KEY = Inr (Some (Unparsable s))"
  then show "getCachedBalances B ls t1 a2 = Inr Null"
    by (simp add: getCachedBalances_def try_sum_def bind_sum_def)
next
  show "\<exists>v. getCachedBalances B ls t1 a2 = Inr v"
    by (rule getCachedBalances_total)
qed

theorem balance_cache_roundtrip_witness:
  "empty_storage = Some \<lparr>items = (\<lambda>k. None), quota_exceeded = False\<rparr>
   \<and> toLowerCase ''0xaBc1'' = toLowerCase ''0xAbC1''
   \<and> getCachedBalances plain_builtins
        (cacheBalances empty_storage 1000 ''0xAbC1'' [(''ETH'', Fin 2), (''USDC'', Fin (5 / 2))])
        300999 ''0xaBc1''
       = Inr (balances_val [(''ETH'', Fin 2), (''USDC'', Fin (5 / 2))])
   \<and> getCachedBalances plain_builtins
        (cacheBalances empty_storage 1000 ''0xAbC1'' [(''ETH'', Fin 2), (''USDC'', Fin (5 / 2))])
        301000 ''0xaBc1''
       = Inr Null
   \<and> getCachedBalances plain_builtins empty_storage 2000 ''0xAbC1'' = Inr Null"
proof -
  have s: "empty_storage = Some \<lparr>items = (\<lambda>k. None), quota_exceeded = False\<rparr>"
    by (simp add: empty_storage_def)
  have l: "toLowerCase ''0xaBc1'' = toLowerCase ''0xAbC1''"
    by code_simp
  have f: "list_all (\<lambda>e. finite_num (snd e)) [(''ETH'', Fin 2), (''USDC'', Fin (5 / 2))]"
    by simp
  have g: "getItem empty_storage BALANCE_CACHE_KEY = Inr None"
    by (simp add: empty_storage_def)
  from balance_cache_roundtrip
    [of empty_storage "\<lparr>items = (\<lambda>k. None), quota_exceeded = False\<rparr>" "''0xaBc1''" "''0xAbC1''"
        300999 1000 "[(''ETH'', Fin 2), (''USDC'', Fin (5 / 2))]" plain_builtins] s l f
  have a: "getCachedBalances plain_builtins
        (cacheBalances empty_storage 1000 ''0xAbC1'' [(''ETH'', Fin 2), (''USDC'', Fin (5 / 2))])
        300999 ''0xaBc1''
       = Inr (balances_val [(''ETH'', Fin 2), (''USDC'', Fin (5 / 2))])"
    by simp
  from balance_cache_roundtrip
    [of empty_storage "\<lparr>items = (\<lambda>k. None), quota_exceeded = False\<rparr>" "''0xaBc1''" "''0xAbC1''"
        301000 1000 "[(''ETH'', Fin 2), (''USDC'', Fin (5 / 2))]" plain_builtins] s
  have b: "getCachedBalances plain_builtins
        (cacheBalances empty_storage 1000 ''0xAbC1'' [(''ETH'', Fin 2), (''USDC'', Fin (5 / 2))])
        301000 ''0xaBc1''
       = Inr Null"
    by simp
  from balance_cache_roundtrip [of empty_storage _ "''0xAbC1''" _ 2000 _ _ plain_builtins] g
  have c: "getCachedBalances plain_builtins empty_storage 2000 ''0xAbC1'' = Inr Null"
    by simp
  from s l a b c show ?thesis by simp
qed

section \<open>Properties of the market alerts\<close>











section \<open>Properties of the vault tables\<close>

lemma check_vault_Inr:
  assumes "check_vault r = Inr r'"
  shows "r' = r\<lparr>expected_apy := decimal_store 4 (expected_apy r)\<rparr>"
    and "vault_name r \<noteq> None" and "allocations r \<noteq> None"
  using assms by (auto simp: check_vault_def split: if_splits)

lemma insert_vault_Inr:
  assumes "insert_vault now ins db = Inr db'"
  shows "\<exists>r. vaults db' = vaults db @ [r] \<and> vault_id r = vaults_id_seq db
           \<and> vault_name r = with_default None (ins_name ins) \<and> vault_name r \<noteq> None
           \<and> allocations r = with_default None (ins_allocations ins) \<and> allocations r \<noteq> None"
    and "vaults_id_seq db' = vaults_id_seq db + 1"
    and "vault_ai_logs db' = vault_ai_logs db"
    and "vault_ai_logs_id_seq db' = vault_ai_logs_id_seq db"
proof -
  let ?row = "\<lparr> vault_id = vaults_id_seq db,
               vault_name = with_default None (ins_name ins),
               description = with_default None (ins_description ins),
               risk_level = with_default (Some ''medium'') (ins_risk_level ins),
               expected_apy = with_default (Some 0) (ins_expected_apy ins),
               allocations = with_default None (ins_allocations ins),
               vault_last_updated = Some now,
               ai_description = with_default None (ins_ai_description ins),
               created_at = Some now,
               updated_at = Some now \<rparr>"
  from assms obtain r where c: "check_vault ?row = Inr r"
    and d: "db' = db\<lparr>vaults := vaults db @ [r], vaults_id_seq := vaults_id_seq db + 1\<rparr>"
    by (auto simp: insert_vault_def split: sum.splits)
  from check_vault_Inr [OF c]
  have "vault_id r = vaults_id_seq db" "vault_name r = with_default None (ins_name ins)"
    "vault_name r \<noteq> None" "allocations r = with_default None (ins_allocations ins)"
    "allocations r \<noteq> None"
    by simp_all
  with d show "\<exists>r. vaults db' = vaults db @ [r] \<and> vault_id r = vaults_id_seq db
           \<and> vault_name r = with_default None (ins_name ins) \<and> vault_name r \<noteq> None
           \<and> allocations r = with_default None (ins_allocations ins) \<and> allocations r \<noteq> None"
    by simp
  from d show "vaults_id_seq db' = vaults_id_seq db + 1"
    and "vault_ai_logs db' = vault_ai_logs db"
    and "vault_ai_logs_id_seq db' = vault_ai_logs_id_seq db"
    by simp_all
qed

lemma update_rows_Inr:
  assumes "update_rows now change vid rs = Inr rs'"
  shows "length rs' = length rs
       \<and> (\<forall>i<length rs.
            (vault_id (rs ! i) \<noteq> vid \<longrightarrow> rs' ! i = rs ! i)
          \<and> (vault_id (rs ! i) = vid \<longrightarrow>
               check_vault ((change (rs ! i))\<lparr>updated_at := Some now\<rparr>) = Inr (rs' ! i)))"
  using assms
proof (induction rs arbitrary: rs')
  case Nil
  then show ?case by simp
next
  case (Cons r rs)
  from Cons.prems obtain r1 rs1 where
    h: "(if vault_id r = vid then check_vault ((change r)\<lparr>updated_at := Some now\<rparr>) else Inr r) = Inr r1"
    and t: "update_rows now change vid rs = Inr rs1" and e: "rs' = r1 # rs1"
    by (auto split: sum.splits)
  from Cons.IH [OF t] have ih: "length rs1 = length rs"
    "\<forall>i<length rs.
            (vault_id (rs ! i) \<noteq> vid \<longrightarrow> rs1 ! i = rs ! i)
          \<and> (vault_id (rs ! i) = vid \<longrightarrow>
               check_vault ((change (rs ! i))\<lparr>updated_at := Some now\<rparr>) = Inr (rs1 ! i))"
    by simp_all
  have "\<forall>i<length (r # rs).
            (vault_id ((r # rs) ! i) \<noteq> vid \<longrightarrow> rs' ! i = (r # rs) ! i)
          \<and> (vault_id ((r # rs) ! i) = vid \<longrightarrow>
               check_vault ((change ((r # rs) ! i))\<lparr>updated_at := Some now\<rparr>) = Inr (rs' ! i))"
  proof (intro allI impI)
    fix i assume "i < length (r # rs)"
    then show "(vault_id ((r # rs) ! i) \<noteq> vid \<longrightarrow> rs' ! i = (r # rs) ! i)
          \<and> (vault_id ((r # rs) ! i) = vid \<longrightarrow>
               check_vault ((change ((r # rs) ! i))\<lparr>updated_at := Some now\<rparr>) = Inr (rs' ! i))"
      using h ih(2) e by (cases i) (auto split: if_splits)
  qed
  with ih(1) e show ?case by simp
qed

lemma insert_log_Inr:
  assumes "insert_log now vid ev pl sm cf model db = Inr db'"
  shows "vaults db' = vaults db" and "vaults_id_seq db' = vaults_id_seq db"
    and "\<exists>l. vault_ai_logs db' = vault_ai_logs db @ [l] \<and> log_vault_id l = vid
            \<and> event_type l = ev \<and> payload l = pl"
  using assms by (auto simp: insert_log_def split: if_splits)


lemma regenerate_vault_Inr:
  assumes "regenerate_vault now vid out db = Inr db'"
  shows "vid \<in> vault_id ` set (vaults db)"
    and "length (vaults db') = length (vaults db)"
    and "\<forall>i<length (vaults db).
           vaults db' ! i = (if vault_id (vaults db ! i) = vid then regenerated now out (vaults db ! i)
                             else vaults db ! i)"
    and "vaults_id_seq db' = vaults_id_seq db"
    and "\<exists>l. vault_ai_logs db' = vault_ai_logs db @ [l] \<and> log_vault_id l = Some vid
            \<and> event_type l = Some ''update'' \<and> payload l = Some (out_raw out)"
proof -
  let ?change = "\<lambda>r. r\<lparr>allocations := Some (allocations_json (out_allocations out)),
                         ai_description := Some (out_description out),
                         expected_apy := Some (out_expected_apy out),
                         vault_last_updated := Some now\<rparr>"
  from assms show ex: "vid \<in> vault_id ` set (vaults db)"
    by (auto simp: regenerate_vault_def split: if_splits)
  from assms ex obtain db1 where u: "update_vault now ?change vid db = Inr db1"
    and l: "insert_log now (Some vid) (Some ''update'') (Some (out_raw out))
                 None None (Some (out_model out)) db1 = Inr db'"
    by (auto simp: regenerate_vault_def split: if_splits sum.splits)
  from u obtain rs where rs: "update_rows now ?change vid (vaults db) = Inr rs"
    and db1: "db1 = db\<lparr>vaults := rs\<rparr>"
    by (auto simp: update_vault_def split: sum.splits)
  from insert_log_Inr [OF l] db1
  have v: "vaults db' = rs" and "vaults_id_seq db' = vaults_id_seq db"
    and lg: "\<exists>l. vault_ai_logs db' = vault_ai_logs db @ [l] \<and> log_vault_id l = Some vid
            \<and> event_type l = Some ''update'' \<and> payload l = Some (out_raw out)"
    by simp_all
  then show "vaults_id_seq db' = vaults_id_seq db" by simp
  from lg show "\<exists>l. vault_ai_logs db' = vault_ai_logs db @ [l] \<and> log_vault_id l = Some vid
            \<and> event_type l = Some ''update'' \<and> payload l = Some (out_raw out)" .
  from update_rows_Inr [OF rs] have len: "length rs = length (vaults db)"
    and each: "\<forall>i<length (vaults db).
            (vault_id (vaults db ! i) \<noteq> vid \<longrightarrow> rs ! i = vaults db ! i)
          \<and> (vault_id (vaults db ! i) = vid \<longrightarrow>
               check_vault ((?change (vaults db ! i))\<lparr>updated_at := Some now\<rparr>) = Inr (rs ! i))"
    by simp_all
  from len v show "length (vaults db') = length (vaults db)" by simp
  show "\<forall>i<length (vaults db).
           vaults db' ! i = (if vault_id (vaults db ! i) = vid then regenerated now out (vaults db ! i)
                             else vaults db ! i)"
  proof (intro allI impI)
    fix i assume i: "i < length (vaults db)"
    show "vaults db' ! i = (if vault_id (vaults db ! i) = vid then regenerated now out (vaults db ! i)
                             else vaults db ! i)"
    proof (cases "vault_id (vaults db ! i) = vid")
      case True
      with each i have "check_vault ((?change (vaults db ! i))\<lparr>updated_at := Some now\<rparr>) = Inr (rs ! i)"
        by simp
      from check_vault_Inr(1) [OF this] True v show ?thesis
        by (simp add: regenerated_def decimal_store_def)
    next
      case False
      with each i v show ?thesis by simp
    qed
  qed
qed

lemma regenerated_fields:
  "vault_id (regenerated now out r) = vault_id r"
  "vault_name (regenerated now out r) = vault_name r"
  "allocations (regenerated now out r) = Some (allocations_json (out_allocations out))"
  "ai_description (regenerated now out r) = Some (out_description out)"
  "expected_apy (regenerated now out r) = Some (round_scale 4 (out_expected_apy out))"
  by (simp_all add: regenerated_def)

lemma regenerate_vault_ids:
  assumes "regenerate_vault now vid out db = Inr db'"
  shows "map vault_id (vaults db') = map vault_id (vaults db)"
proof (rule nth_equalityI)
  show "length (map vault_id (vaults db')) = length (map vault_id (vaults db))"
    using regenerate_vault_Inr(2) [OF assms] by simp
next
  fix i assume "i < length (map vault_id (vaults db'))"
  then have i: "i < length (vaults db)" "i < length (vaults db')"
    using regenerate_vault_Inr(2) [OF assms] by simp_all
  with regenerate_vault_Inr(3) [OF assms]
  have "vault_id (vaults db' ! i) = vault_id (vaults db ! i)"
    by (simp add: regenerated_fields)
  with i show "map vault_id (vaults db') ! i = map vault_id (vaults db) ! i"
    by simp
qed

lemma insert_keeps_invariant:
  assumes "vaults_invariant db" "insert_vault now ins db = Inr db'"
    "\<exists>title al. ins_name ins = Given (Some title) \<and> ins_allocations ins = Given (Some (allocations_json al))"
  shows "vaults_invariant db'"
proof -
  from insert_vault_Inr(1) [OF assms(2)] obtain r where
    r: "vaults db' = vaults db @ [r]" "vault_id r = vaults_id_seq db"
       "vault_name r = with_default None (ins_name ins)"
       "allocations r = with_default None (ins_allocations ins)"
    by blast
  from assms(3) r(3,4) have ok: "vault_row_ok r"
    by (auto simp: vault_row_ok_def)
  have seq: "vaults_id_seq db' = vaults_id_seq db + 1"
    by (rule insert_vault_Inr(2) [OF assms(2)])
  from assms(1) have old: "\<forall>x\<in>set (vaults db). vault_row_ok x \<and> vault_id x < vaults_id_seq db"
    and dist: "distinct (map vault_id (vaults db))"
    by (simp_all add: vaults_invariant_def)
  from old r(2) have fresh: "vault_id r \<notin> vault_id ` set (vaults db)"
    by auto
  show ?thesis
    unfolding vaults_invariant_def r(1) seq
    using old ok r(2) dist fresh by auto
qed

lemma log_keeps_invariant:
  assumes "vaults_invariant db" "insert_log now vid ev pl sm cf model db = Inr db'"
  shows "vaults_invariant db'"
  using assms insert_log_Inr(1,2) [OF assms(2)] by (simp add: vaults_invariant_def)

lemma regenerate_keeps_invariant:
  assumes "vaults_invariant db" "regenerate_vault now vid out db = Inr db'"
  shows "vaults_invariant db'"
proof -
  from assms(1) have old: "\<forall>x\<in>set (vaults db). vault_row_ok x \<and> vault_id x < vaults_id_seq db"
    and dist: "distinct (map vault_id (vaults db))"
    by (simp_all add: vaults_invariant_def)
  have ids: "map vault_id (vaults db') = map vault_id (vaults db)"
    by (rule regenerate_vault_ids [OF assms(2)])
  have len: "length (vaults db') = length (vaults db)"
    by (rule regenerate_vault_Inr(2) [OF assms(2)])
  have seq: "vaults_id_seq db' = vaults_id_seq db"
    by (rule regenerate_vault_Inr(4) [OF assms(2)])
  have "\<forall>x\<in>set (vaults db'). vault_row_ok x \<and> vault_id x < vaults_id_seq db'"
  proof
    fix x assume "x \<in> set (vaults db')"
    then obtain i where i: "i < length (vaults db')" "x = vaults db' ! i"
      by (auto simp: in_set_conv_nth)
    with len have m: "vaults db ! i \<in> set (vaults db)" by simp
    from regenerate_vault_Inr(3) [OF assms(2)] i len
    have x: "x = (if vault_id (vaults db ! i) = vid then regenerated now out (vaults db ! i)
                  else vaults db ! i)"
      by simp
    from old m have o: "vault_row_ok (vaults db ! i)" "vault_id (vaults db ! i) < vaults_id_seq db"
      by simp_all
    have "vault_row_ok (regenerated now out (vaults db ! i))"
      using o(1) by (auto simp: vault_row_ok_def regenerated_fields)
    with x o seq show "vault_row_ok x \<and> vault_id x < vaults_id_seq db'"
      by (simp add: regenerated_fields)
  qed
  with dist ids show ?thesis
    by (simp add: vaults_invariant_def)
qed

lemma vault_state_invariant: "vault_state db \<Longrightarrow> vaults_invariant db"
proof (induction rule: vault_state.induct)
  case vs_created
  then show ?case by (simp add: vaults_invariant_def created_tables_def)
next
  case (vs_sample db now db')
  have "\<exists>title al. ins_name sample_vault = Given (Some title)
           \<and> ins_allocations sample_vault = Given (Some (allocations_json al))"
    unfolding sample_vault_def by (simp del: ex_simps) blast
  with vs_sample show ?case
    using insert_keeps_invariant by blast
next
  case (vs_sample_log db now db')
  show ?case
  proof (cases "find (\<lambda>r. vault_name r = Some ''AI Balanced Yield v1'') (vaults db)")
    case None
    with vs_sample_log show ?thesis
      by (simp add: insert_sample_log_def)
  next
    case (Some r)
    with vs_sample_log.hyps(2)
    have "insert_log now (Some (vault_id r)) (Some ''generate'')
            (Some (Obj [(''allocations'', allocations_json [(''lido'', 50)]),
                        (''reasoning'', Str ''Diversified allocation'')]))
            (Some ''Initial vault generation with balanced allocation'')
            (Some (85 / 100)) (Some ''llama-3.3-70b-versatile'') db = Inr db'"
      by (simp add: insert_sample_log_def)
    with vs_sample_log.IH show ?thesis
      by (rule log_keeps_invariant)
  qed
next
  case (vs_generate db now title risk out db')
  from vs_generate.hyps(2) obtain db1 where
    i: "insert_vault now
             \<lparr> ins_name = Given (Some title), ins_description = Omitted,
               ins_risk_level = Given (Some risk),
               ins_expected_apy = Given (Some (out_expected_apy out)),
               ins_allocations = Given (Some (allocations_json (out_allocations out))),
               ins_ai_description = Given (Some (out_description out)) \<rparr> db = Inr db1"
    and l: "insert_log now (Some (vaults_id_seq db)) (Some ''generate'') (Some (out_raw out))
            None None (Some (out_model out)) db1 = Inr db'"
    by (auto simp: generate_vault_def split: sum.splits)
  have "vaults_invariant db1"
    by (rule insert_keeps_invariant [OF vs_generate.IH i]) (simp, blast)
  then show ?case
    by (rule log_keeps_invariant [OF _ l])
next
  case (vs_regenerate db now vid out db')
  then show ?case
    using regenerate_keeps_invariant by blast
qed

lemma update_keeps_not_null:
  assumes "update_vault now change vid db = Inr db'"
    and "\<forall>r\<in>set (vaults db). vault_name r \<noteq> None \<and> allocations r \<noteq> None"
  shows "\<forall>r\<in>set (vaults db'). vault_name r \<noteq> None \<and> allocations r \<noteq> None"
proof
  fix x assume x: "x \<in> set (vaults db')"
  from assms(1) obtain rs where rs: "update_rows now change vid (vaults db) = Inr rs"
    and v: "vaults db' = rs"
    by (auto simp: update_vault_def split: sum.splits)
  from update_rows_Inr [OF rs] have len: "length rs = length (vaults db)"
    and each: "\<forall>i<length (vaults db).
            (vault_id (vaults db ! i) \<noteq> vid \<longrightarrow> rs ! i = vaults db ! i)
          \<and> (vault_id (vaults db ! i) = vid \<longrightarrow>
               check_vault ((change (vaults db ! i))\<lparr>updated_at := Some now\<rparr>) = Inr (rs ! i))"
    by simp_all
  from x v obtain i where i: "i < length rs" "x = rs ! i"
    by (auto simp: in_set_conv_nth)
  show "vault_name x \<noteq> None \<and> allocations x \<noteq> None"
  proof (cases "vault_id (vaults db ! i) = vid")
    case True
    with each i len
    have c: "check_vault ((change (vaults db ! i))\<lparr>updated_at := Some now\<rparr>) = Inr x"
      by simp
    from check_vault_Inr [OF c] show ?thesis
      by simp
  next
    case False
    with each i len have "x = vaults db ! i" by simp
    moreover have "vaults db ! i \<in> set (vaults db)"
      using i len by simp
    ultimately show ?thesis
      using assms(2) by blast
  qed
qed

lemma one_row_per_id:
  "distinct (map f xs) \<Longrightarrow> x \<in> f ` set xs \<Longrightarrow> length (filter (\<lambda>r. f r = x) xs) = 1"
proof (induction xs)
  case Nil
  then show ?case by simp
next
  case (Cons a xs)
  show ?case
  proof (cases "f a = x")
    case True
    with Cons.prems(1) have "filter (\<lambda>r. f r = x) xs = []"
      by (auto simp: filter_empty_conv image_iff)
    with True show ?thesis by simp
  next
    case False
    with Cons show ?thesis by auto
  qed
qed

text \<open>
  C5: a row of \<open>vaults\<close> is stored only with a name and with allocations (both
  \<open>NOT NULL\<close>), and no \<open>UPDATE\<close> takes them away. In every state of the tables each vault is one row, with its name and with
  its allocations as a JSON array of \<open>{protocol_name, percent}\<close> objects. Regenerating a
  vault creates and deletes no row: it updates the row's \<open>allocations\<close>, \<open>ai_description\<close> and
  \<open>expected_apy\<close> (and its timestamps) in place, leaves every other row as it was, and
  appends one row for the vault to \<open>vault_ai_logs\<close>; the vault still has exactly one row.
\<close>

theorem vault_rows_spec:
  "(insert_vault t ins d = Inr d1 \<longrightarrow>
      (\<exists>r. vaults d1 = vaults d @ [r] \<and> vault_name r \<noteq> None \<and> allocations r \<noteq> None))
   \<and> (update_vault t change v d = Inr d2
        \<and> (\<forall>r\<in>set (vaults d). vault_name r \<noteq> None \<and> allocations r \<noteq> None) \<longrightarrow>
        (\<forall>r\<in>set (vaults d2). vault_name r \<noteq> None \<and> allocations r \<noteq> None))
   \<and> (vault_state db \<longrightarrow>
        (\<forall>r\<in>set (vaults db).
            vault_name r \<noteq> None \<and> (\<exists>al. allocations r = Some (allocations_json al)))
        \<and> distinct (map vault_id (vaults db)))
   \<and> (vault_state db \<and> regenerate_vault now vid out db = Inr db' \<longrightarrow>
        map vault_id (vaults db') = map vault_id (vaults db)
      \<and> length (filter (\<lambda>r. vault_id r = vid) (vaults db')) = 1
      \<and> (\<forall>i<length (vaults db).
            vaults db' ! i = (if vault_id (vaults db ! i) = vid
                              then regenerated now out (vaults db ! i) else vaults db ! i))
      \<and> (\<exists>l. vault_ai_logs db' = vault_ai_logs db @ [l] \<and> log_vault_id l = Some vid
             \<and> event_type l = Some ''update'' \<and> payload l = Some (out_raw out)))"
proof (intro conjI impI)
  assume "insert_vault t ins d = Inr d1"
  from insert_vault_Inr(1) [OF this]
  show "\<exists>r. vaults d1 = vaults d @ [r] \<and> vault_name r \<noteq> None \<and> allocations r \<noteq> None"
    by blast
next
  assume "update_vault t change v d = Inr d2
        \<and> (\<forall>r\<in>set (vaults d). vault_name r \<noteq> None \<and> allocations r \<noteq> None)"
  then show "\<forall>r\<in>set (vaults d2). vault_name r \<noteq> None \<and> allocations r \<noteq> None"
    using update_keeps_not_null by blast
next
  assume "vault_state db"
  then have "vaults_invariant db" by (rule vault_state_invariant)
  then show "\<forall>r\<in>set (vaults db).
            vault_name r \<noteq> None \<and> (\<exists>al. allocations r = Some (allocations_json al))"
    and "distinct (map vault_id (vaults db))"
    by (simp_all add: vaults_invariant_def vault_row_ok_def)
next
  assume a: "vault_state db \<and> regenerate_vault now vid out db = Inr db'"
  then have r: "regenerate_vault now vid out db = Inr db'" and inv: "vaults_invariant db"
    by (simp_all add: vault_state_invariant)
  show ids: "map vault_id (vaults db') = map vault_id (vaults db)"
    by (rule regenerate_vault_ids [OF r])
  have "distinct (map vault_id (vaults db'))"
    using inv ids by (simp add: vaults_invariant_def)
  moreover have "vid \<in> vault_id ` set (vaults db')"
    using regenerate_vault_Inr(1) [OF r] ids by (metis set_map)
  ultimately show "length (filter (\<lambda>r. vault_id r = vid) (vaults db')) = 1"
    by (rule one_row_per_id)
  show "\<forall>i<length (vaults db).
            vaults db' ! i = (if vault_id (vaults db ! i) = vid
                              then regenerated now out (vaults db ! i) else vaults db ! i)"
    by (rule regenerate_vault_Inr(3) [OF r])
  show "\<exists>l. vault_ai_logs db' = vault_ai_logs db @ [l] \<and> log_vault_id l = Some vid
             \<and> event_type l = Some ''update'' \<and> payload l = Some (out_raw out)"
    by (rule regenerate_vault_Inr(5) [OF r])
qed

theorem vault_rows_spec_witness:
  "vault_state sample_db
   \<and> regenerate_vault 2000 1 sample_output sample_db = Inr regenerated_db
   \<and> map vault_id (vaults sample_db) = [1]
   \<and> map vault_id (vaults regenerated_db) = [1]
   \<and> map vault_name (vaults regenerated_db) = [Some ''AI Balanced Yield v1'']
   \<and> map allocations (vaults regenerated_db) = [Some (allocations_json [(''lido'', 40), (''curve'', 60)])]
   \<and> length (filter (\<lambda>r. vault_id r = 1) (vaults regenerated_db)) = 1
   \<and> map log_vault_id (vault_ai_logs regenerated_db) = [Some 1]"
proof -
  have i: "insert_vault 1000 sample_vault created_tables = Inr sample_db"
    by code_simp
  have s: "vault_state sample_db"
    by (rule vs_sample [OF vs_created i])
  have r: "regenerate_vault 2000 1 sample_output sample_db = Inr regenerated_db"
    by code_simp
  have e: "map vault_id (vaults sample_db) = [1]"
    "map vault_name (vaults regenerated_db) = [Some ''AI Balanced Yield v1'']"
    "map allocations (vaults regenerated_db) = [Some (allocations_json [(''lido'', 40), (''curve'', 60)])]"
    "map log_vault_id (vault_ai_logs regenerated_db) = [Some 1]"
    by code_simp+
  from vault_rows_spec [of 1000 sample_vault created_tables sample_db _ _ _ sample_db 2000 1
      sample_output regenerated_db] s r i
  have "map vault_id (vaults regenerated_db) = map vault_id (vaults sample_db)"
    and "length (filter (\<lambda>r. vault_id r = 1) (vaults regenerated_db)) = 1"
    by blast+
  with s r e show ?thesis by simp
qed

end
